theory Spec2Isabelle
  imports Main
begin

section \<open>Values carried by the broker and the message channel\<close>

text \<open>
  The broker's slots, the payloads and the inbound messages are untyped in the source
  (\<^verbatim>\<open>any\<close>). They are modelled as JavaScript data: \<open>undefined\<close>, \<open>null\<close>,
  booleans, numbers (opaque here, integers), strings, arrays and objects (a list of
  properties in insertion order).
\<close>

datatype json =
    JUndefined
  | JNull
  | JBool bool
  | JNumber int
  | JString string
  | JArray "json list"
  | JObject "(string \<times> json) list"

section \<open>Host platform\<close>

text \<open>
  The editor is an external collaborator. What the extension asks of it is recorded in a
  trace, in program order. A surface (\<^verbatim>\<open>vscode.WebviewPanel\<close>) is a handle, a
  resource location (\<^verbatim>\<open>vscode.Uri\<close>) is its list of path segments, and the
  registration of an event listener is an \<^verbatim>\<open>IDisposable\<close>, identified by a number.
\<close>

type_synonym WebviewPanel = nat
type_synonym Uri = "string list"
type_synonym IDisposable = nat

datatype panel_event = OnDidDispose | OnDidChangeViewState | OnDidReceiveMessage

text \<open>
  \<^verbatim>\<open>vscode.WebviewOptions\<close> as \<open>getWebviewOptions\<close> builds it, and the bootstrap
  document of \<open>_getHtmlForWebview\<close>: fixed markup with one substitution, the
  \<^verbatim>\<open>src\<close> of its script element, which is \<^verbatim>\<open>webview.asWebviewUri\<close> of the
  location kept here.
\<close>

record WebviewOptions =
  enableScripts :: bool
  localResourceRoots :: "Uri list"

datatype Html = BootstrapDocument Uri

datatype ViewColumn = Beside

datatype event =
    ExecuteCommand string
  | CreateWebviewPanel WebviewPanel string string ViewColumn WebviewOptions
  | Reveal WebviewPanel
  | SetTitle WebviewPanel string
  | SetHtml WebviewPanel Html
  | Listen WebviewPanel panel_event IDisposable
  | PanelDispose WebviewPanel
  | Released IDisposable
  | PostMessage WebviewPanel json
  | Invoked nat json

datatype exn = TypeError | DisposeFailed IDisposable

section \<open>Program state\<close>

text \<open>
  A subscriber of a slot is either the arrow function that
  \<^verbatim>\<open>SimplePqTestResultViewBroker.activate\<close> creates for the property it closes
  over, or some other consumer. A consumer is opaque: it is identified by a number and
  its invocation is recorded in the trace with the argument it received.
\<close>

datatype callback = Relay string | Consumer nat

text \<open>
  Modelled from the spec: the class \<^verbatim>\<open>ValueEventEmitter\<close> of
  \<^verbatim>\<open>common/ValueEventEmitter\<close> is not among the sources. The spec's value slot
  holds a current value and an ordered sequence of subscribers.
\<close>

record ValueEventEmitter =
  currentValue :: json
  subscribers :: "callback list"

text \<open>
  An instance of \<^verbatim>\<open>PqTestResultViewPanel\<close> is an object reference: its identity
  together with its two readonly fields. Its one mutable field, \<^verbatim>\<open>_disposables\<close>,
  lives in the store \<open>disposables\<close> of the state, indexed by the identity.
\<close>

record PqTestResultViewPanel =
  ident :: nat
  panel :: WebviewPanel
  extensionUri :: Uri

datatype broker_method = Activate | EmitAll | DeActivate

text \<open>
  The state: the two statics (\<^verbatim>\<open>SimplePqTestResultViewBroker.values\<close>, an object
  whose keys are kept in insertion order, and \<^verbatim>\<open>PqTestResultViewPanel.currentPanel\<close>),
  the instances constructed so far with the store of their \<^verbatim>\<open>_disposables\<close>
  arrays, and the host: its next fresh handle, the registrations whose
  \<^verbatim>\<open>dispose()\<close> throws, and the trace. \<open>brokerCalls\<close> records the entries into
  the broker's static methods.
\<close>

record world =
  broker_values :: "(string \<times> ValueEventEmitter) list"
  currentPanel :: "PqTestResultViewPanel option"
  instances :: "PqTestResultViewPanel list"
  disposables :: "nat \<Rightarrow> IDisposable list"
  hostNext :: nat
  hostFaults :: "IDisposable list"
  trace :: "event list"
  brokerCalls :: "broker_method list"

text \<open>
  A call either returns, leaving a state, or throws, leaving the state it had reached
  together with the exception.
\<close>

type_synonym result = "exn \<times> world + world"

definition andThen :: "result \<Rightarrow> (world \<Rightarrow> result) \<Rightarrow> result" where
  "andThen r f = (case r of Inl x \<Rightarrow> Inl x | Inr w \<Rightarrow> f w)"

definition world_of :: "result \<Rightarrow> world" where
  "world_of r = (case r of Inl (e, w) \<Rightarrow> w | Inr w \<Rightarrow> w)"

definition thrown :: "result \<Rightarrow> exn option" where
  "thrown r = (case r of Inl (e, w) \<Rightarrow> Some e | Inr w \<Rightarrow> None)"

definition logged :: "world \<Rightarrow> event list \<Rightarrow> world" where
  "logged w es = w\<lparr>trace := trace w @ es\<rparr>"

section \<open>PqTestResultViewPanel.postOneMessage\<close>

text \<open>
  \<^verbatim>\<open>this._panel.webview.postMessage({type, payload}).then(noop, noop)\<close>: one message
  is handed to the surface; whether it is delivered is discarded.
\<close>

definition envelope :: "string \<Rightarrow> json \<Rightarrow> json" where
  "envelope type payload = JObject [(''type'', JString type), (''payload'', payload)]"

definition postOneMessage :: "PqTestResultViewPanel \<Rightarrow> string \<Rightarrow> json \<Rightarrow> world \<Rightarrow> world" where
  "postOneMessage this type payload w = logged w [PostMessage (panel this) (envelope type payload)]"

section \<open>The value slots\<close>

text \<open>
  The subscriber that \<open>activate\<close> installs on the slot \<open>oneProperty\<close>:
  \<^verbatim>\<open>PqTestResultViewPanel.currentPanel?.postOneMessage("OnOneValueUpdated", {property, value})\<close>.
\<close>

definition relay :: "string \<Rightarrow> json \<Rightarrow> world \<Rightarrow> world" where
  "relay oneProperty nextValue w =
     (case currentPanel w of
        None \<Rightarrow> w
      | Some p \<Rightarrow>
          postOneMessage p ''OnOneValueUpdated''
            (JObject [(''property'', JString oneProperty), (''value'', nextValue)]) w)"

fun invoke :: "callback \<Rightarrow> json \<Rightarrow> world \<Rightarrow> world" where
  "invoke (Relay oneProperty) v w = relay oneProperty v w"
| "invoke (Consumer c) v w = logged w [Invoked c v]"

fun invoke_all :: "callback list \<Rightarrow> json \<Rightarrow> world \<Rightarrow> world" where
  "invoke_all [] v w = w"
| "invoke_all (cb # cbs) v w = invoke_all cbs v (invoke cb v w)"

text \<open>
  \<^verbatim>\<open>this.values[name]\<close>: the slot of that name, or \<open>undefined\<close>; and the write-back
  of a slot's mutated emitter. The mapping itself is frozen: no key is added or removed.
\<close>

definition slot :: "string \<Rightarrow> world \<Rightarrow> ValueEventEmitter option" where
  "slot name w = map_of (broker_values w) name"

definition set_slot :: "string \<Rightarrow> ValueEventEmitter \<Rightarrow> world \<Rightarrow> world" where
  "set_slot name e w =
     w\<lparr>broker_values := map (\<lambda>(n, x). if n = name then (n, e) else (n, x)) (broker_values w)\<rparr>"

text \<open>
  Modelled from the spec: the three methods of the missing \<^verbatim>\<open>ValueEventEmitter\<close>
  that the broker calls. \<open>subscribe\<close> appends the callback to the slot's subscriber
  list (the handle it returns is discarded by the only caller in the sources and
  supports no removal); \<open>emit\<close> stores the new value, then synchronously invokes, in
  subscription order, every currently registered subscriber with it, and without an
  argument re-invokes the current value against the current subscribers; \<open>dispose\<close>
  clears the subscriber list. Calling a method on the slot of an unknown name is a
  property access on \<open>undefined\<close>.
\<close>

definition subscribe :: "string \<Rightarrow> callback \<Rightarrow> world \<Rightarrow> result" where
  "subscribe name cb w =
     (case slot name w of
        None \<Rightarrow> Inl (TypeError, w)
      | Some e \<Rightarrow> Inr (set_slot name (e\<lparr>subscribers := subscribers e @ [cb]\<rparr>) w))"

definition emit :: "string \<Rightarrow> json option \<Rightarrow> world \<Rightarrow> result" where
  "emit name arg w =
     (case slot name w of
        None \<Rightarrow> Inl (TypeError, w)
      | Some e \<Rightarrow>
          (let v = (case arg of None \<Rightarrow> currentValue e | Some x \<Rightarrow> x)
           in Inr (invoke_all (subscribers e) v (set_slot name (e\<lparr>currentValue := v\<rparr>) w))))"

definition dispose_emitter :: "string \<Rightarrow> world \<Rightarrow> result" where
  "dispose_emitter name w =
     (case slot name w of
        None \<Rightarrow> Inl (TypeError, w)
      | Some e \<Rightarrow> Inr (set_slot name (e\<lparr>subscribers := []\<rparr>) w))"

section \<open>SimplePqTestResultViewBroker\<close>

text \<open>
  Each static method is a \<^verbatim>\<open>for (const oneProperty in this.values)\<close> loop: the keys
  are enumerated once, in insertion order, and each iteration reads
  \<^verbatim>\<open>this.values[oneProperty]\<close> again.
\<close>

definition called :: "broker_method \<Rightarrow> world \<Rightarrow> world" where
  "called m w = w\<lparr>brokerCalls := brokerCalls w @ [m]\<rparr>"

fun for_in :: "string list \<Rightarrow> (string \<Rightarrow> world \<Rightarrow> result) \<Rightarrow> world \<Rightarrow> result" where
  "for_in [] body w = Inr w"
| "for_in (oneProperty # rest) body w = andThen (body oneProperty w) (for_in rest body)"

definition activate :: "world \<Rightarrow> result" where
  "activate w =
     for_in (map fst (broker_values w)) (\<lambda>oneProperty. subscribe oneProperty (Relay oneProperty))
       (called Activate w)"

definition emitAll :: "world \<Rightarrow> result" where
  "emitAll w =
     for_in (map fst (broker_values w)) (\<lambda>oneProperty. emit oneProperty None) (called EmitAll w)"

definition deActivate :: "world \<Rightarrow> result" where
  "deActivate w =
     for_in (map fst (broker_values w)) (\<lambda>oneProperty. dispose_emitter oneProperty)
       (called DeActivate w)"

section \<open>PqTestResultViewPanel\<close>

definition PqTestResultViewPanelPrefix :: string where
  "PqTestResultViewPanelPrefix = ''powerquery.sdk.pqtest''"

definition ShowResultWebViewCommand :: string where
  "ShowResultWebViewCommand = PqTestResultViewPanelPrefix @ ''.ShowResultWebView''"

definition viewType :: string where
  "viewType = PqTestResultViewPanelPrefix @ ''.ResultWebView''"

definition viewPaths :: "string list" where
  "viewPaths = [''webviewDist'', ''pq-test-result-view'']"

definition joinPath :: "Uri \<Rightarrow> string list \<Rightarrow> Uri" where
  "joinPath base segments = base @ segments"

definition getWebviewOptions :: "Uri \<Rightarrow> WebviewOptions" where
  "getWebviewOptions uri =
     \<lparr>enableScripts = True, localResourceRoots = [joinPath uri viewPaths]\<rparr>"

definition getHtmlForWebview :: "PqTestResultViewPanel \<Rightarrow> Html" where
  "getHtmlForWebview this =
     BootstrapDocument (joinPath (extensionUri this) (viewPaths @ [''main.js'']))"

definition update :: "PqTestResultViewPanel \<Rightarrow> world \<Rightarrow> world" where
  "update this w =
     logged w [SetTitle (panel this) ''PQTest result webview'',
               SetHtml (panel this) (getHtmlForWebview this)]"

text \<open>
  \<^verbatim>\<open>this._panel.onX(listener, null, this._disposables)\<close>: the host registers the
  listener and pushes the registration, a fresh disposable, onto the array it was given.
\<close>

definition listen :: "panel_event \<Rightarrow> PqTestResultViewPanel \<Rightarrow> world \<Rightarrow> world" where
  "listen ev this w =
     (let d = hostNext w
      in logged
           (w\<lparr>hostNext := Suc d,
              disposables := (disposables w)(ident this := disposables w (ident this) @ [d])\<rparr>)
           [Listen (panel this) ev d])"

text \<open>
  The constructor: a new object with an empty \<^verbatim>\<open>_disposables\<close>, one
  \<open>_update\<close>, then the three listeners, in the order of the source.
\<close>

definition new_PqTestResultViewPanel ::
    "WebviewPanel \<Rightarrow> Uri \<Rightarrow> world \<Rightarrow> PqTestResultViewPanel \<times> world" where
  "new_PqTestResultViewPanel p uri w =
     (let this = \<lparr>ident = length (instances w), panel = p, extensionUri = uri\<rparr>;
          w0 = w\<lparr>instances := instances w @ [this],
                 disposables := (disposables w)(ident this := [])\<rparr>;
          w1 = update this w0;
          w2 = listen OnDidDispose this w1;
          w3 = listen OnDidChangeViewState this w2;
          w4 = listen OnDidReceiveMessage this w3
      in (this, w4))"

text \<open>
  \<open>createOrShow\<close> is what the show-command runs:
  \<^verbatim>\<open>PqTestResultViewPanel.activate\<close> registers it with the host under
  \<open>ShowResultWebViewCommand\<close>, registers the serializer through which the host calls
  \<open>revive\<close>, and calls the broker's \<open>activate\<close>. With a current panel
  \<open>createOrShow\<close> reveals that panel's surface and returns. Otherwise it asks for the
  two-column layout (both outcomes of that request are ignored), has the host create a
  surface and wraps it.
\<close>

definition createOrShow :: "Uri \<Rightarrow> world \<Rightarrow> world" where
  "createOrShow uri w =
     (case currentPanel w of
        Some current \<Rightarrow> logged w [Reveal (panel current)]
      | None \<Rightarrow>
          (let w1 = logged w [ExecuteCommand ''workbench.action.editorLayoutTwoColumns''];
               p = hostNext w1;
               w2 = logged (w1\<lparr>hostNext := Suc p\<rparr>)
                      [CreateWebviewPanel p viewType ''PQTest result'' Beside
                         (getWebviewOptions uri)];
               (this, w3) = new_PqTestResultViewPanel p uri w2
           in w3\<lparr>currentPanel := Some this\<rparr>))"

definition revive :: "WebviewPanel \<Rightarrow> Uri \<Rightarrow> world \<Rightarrow> world" where
  "revive p uri w =
     (let (this, w1) = new_PqTestResultViewPanel p uri w
      in w1\<lparr>currentPanel := Some this\<rparr>)"

text \<open>
  \<open>IDisposable.dispose()\<close> of a listener registration: the host either releases it or,
  for the registrations in \<open>hostFaults\<close>, throws.
\<close>

definition release :: "IDisposable \<Rightarrow> world \<Rightarrow> result" where
  "release d w =
     (if d \<in> set (hostFaults w) then Inl (DisposeFailed d, w) else Inr (logged w [Released d]))"

text \<open>
  The loop of \<open>dispose\<close>: \<^verbatim>\<open>while (this._disposables.length)\<close> pops the last
  element and disposes it. The array holds objects only, so the popped element of a
  non-empty array passes the \<^verbatim>\<open>if (disposable)\<close> test. Nothing catches what
  \<^verbatim>\<open>disposable.dispose()\<close> throws. Before the loop \<open>dispose\<close> clears the
  static reference and calls \<^verbatim>\<open>this._panel.dispose()\<close>; that call is recorded in
  the trace, and what the host does on it is not part of the model.
\<close>

function dispose_loop :: "nat \<Rightarrow> world \<Rightarrow> result" where
  "dispose_loop i w =
     (if disposables w i = [] then Inr w
      else
        (let disposable = last (disposables w i);
             w1 = w\<lparr>disposables := (disposables w)(i := butlast (disposables w i))\<rparr>
         in case release disposable w1 of
              Inl x \<Rightarrow> Inl x
            | Inr w2 \<Rightarrow> dispose_loop i w2))"
  by pat_completeness auto
termination
  by (relation "measure (\<lambda>(i, w). length (disposables w i))")
     (auto simp: release_def logged_def split: if_splits)

declare dispose_loop.simps [simp del]

definition dispose :: "PqTestResultViewPanel \<Rightarrow> world \<Rightarrow> result" where
  "dispose this w =
     dispose_loop (ident this)
       (logged (w\<lparr>currentPanel := None\<rparr>) [PanelDispose (panel this)])"

text \<open>
  The three listeners of the constructor. \<open>visible\<close> is \<^verbatim>\<open>this._panel.visible\<close>
  as the host reports it when the view state changes. The message listener reads
  \<^verbatim>\<open>message.type\<close>: a property read throws on \<open>undefined\<close> and \<open>null\<close>, gives
  the property's value on an object that has it, and \<open>undefined\<close> otherwise. The
  \<^verbatim>\<open>switch\<close> compares with strict equality and has one case.
\<close>

fun get_type :: "json \<Rightarrow> exn + json" where
  "get_type JUndefined = Inl TypeError"
| "get_type JNull = Inl TypeError"
| "get_type (JObject props) =
     Inr (case map_of props ''type'' of None \<Rightarrow> JUndefined | Some t \<Rightarrow> t)"
| "get_type other = Inr JUndefined"

definition onDidDispose_listener :: "PqTestResultViewPanel \<Rightarrow> world \<Rightarrow> result" where
  "onDidDispose_listener this w = dispose this w"

definition onDidChangeViewState_listener ::
    "PqTestResultViewPanel \<Rightarrow> bool \<Rightarrow> world \<Rightarrow> world" where
  "onDidChangeViewState_listener this visible w = (if visible then update this w else w)"

definition onDidReceiveMessage_listener :: "json \<Rightarrow> world \<Rightarrow> result" where
  "onDidReceiveMessage_listener message w =
     (case get_type message of
        Inl e \<Rightarrow> Inl (e, w)
      | Inr t \<Rightarrow> if t = JString ''onReady'' then emitAll w else Inr w)"

text \<open>
  The state when the module has been loaded: one slot, \<open>latestPqTestResult\<close>, holding
  \<open>undefined\<close> and no subscriber; no panel.
\<close>

definition init_world :: "IDisposable list \<Rightarrow> world" where
  "init_world faults =
     \<lparr>broker_values = [(''latestPqTestResult'', \<lparr>currentValue = JUndefined, subscribers = []\<rparr>)],
      currentPanel = None,
      instances = [],
      disposables = (\<lambda>i. []),
      hostNext = 0,
      hostFaults = faults,
      trace = [],
      brokerCalls = []\<rparr>"

section \<open>What a delivery adds to the trace\<close>

text \<open>
  The events that one invocation of a subscriber adds to the trace, given the current
  panel at that moment, and the events of delivering a slot's stored value to each of its
  subscribers in order.
\<close>

fun observed :: "PqTestResultViewPanel option \<Rightarrow> callback \<Rightarrow> json \<Rightarrow> event list" where
  "observed cp (Consumer c) v = [Invoked c v]"
| "observed None (Relay oneProperty) v = []"
| "observed (Some this) (Relay oneProperty) v =
     [PostMessage (panel this)
        (envelope ''OnOneValueUpdated''
           (JObject [(''property'', JString oneProperty), (''value'', v)]))]"

definition deliveries :: "PqTestResultViewPanel option \<Rightarrow> ValueEventEmitter \<Rightarrow> event list" where
  "deliveries cp e = concat (map (\<lambda>cb. observed cp cb (currentValue e)) (subscribers e))"

text \<open>
  Observations on a trace: the messages handed to the surfaces and the arguments a
  consumer was invoked with, both in order. Two drivers: a sequence of \<open>subscribe\<close>
  calls and a sequence of value updates on one slot.
\<close>

definition posted :: "world \<Rightarrow> (WebviewPanel \<times> json) list" where
  "posted w = concat (map (\<lambda>ev. case ev of PostMessage p m \<Rightarrow> [(p, m)] | _ \<Rightarrow> []) (trace w))"

definition received :: "nat \<Rightarrow> world \<Rightarrow> json list" where
  "received c w =
     concat (map (\<lambda>ev. case ev of Invoked c' v \<Rightarrow> if c' = c then [v] else [] | _ \<Rightarrow> []) (trace w))"

fun subscribe_each :: "string \<Rightarrow> callback list \<Rightarrow> world \<Rightarrow> result" where
  "subscribe_each name [] w = Inr w"
| "subscribe_each name (cb # cbs) w = andThen (subscribe name cb w) (subscribe_each name cbs)"

fun emit_each :: "string \<Rightarrow> json list \<Rightarrow> world \<Rightarrow> result" where
  "emit_each name [] w = Inr w"
| "emit_each name (v # vs) w = andThen (emit name (Some v) w) (emit_each name vs)"

text \<open>
  The panel's life cycle, as the host drives it. An instance is live from its
  construction until \<open>dispose\<close> has run on it, which the trace shows as the disposal of
  its surface. The two inputs are the show-command and the closure of the current
  panel's surface, to which the host answers by firing the \<open>onDidDispose\<close> listener
  of that panel. \<open>one_panel\<close> is the singleton invariant: the live instances are
  exactly the current panel, and the host has handed out every handle it has seen.
\<close>

definition live :: "world \<Rightarrow> PqTestResultViewPanel list" where
  "live w = filter (\<lambda>p. PanelDispose (panel p) \<notin> set (trace w)) (instances w)"

datatype input = ShowCommand | SurfaceClosed

fun step :: "Uri \<Rightarrow> world \<Rightarrow> input \<Rightarrow> world" where
  "step uri w ShowCommand = createOrShow uri w"
| "step uri w SurfaceClosed =
     (case currentPanel w of
        None \<Rightarrow> w
      | Some p \<Rightarrow> world_of (onDidDispose_listener p w))"

definition run :: "Uri \<Rightarrow> input list \<Rightarrow> world \<Rightarrow> world" where
  "run uri inputs w = foldl (step uri) w inputs"

definition one_panel :: "world \<Rightarrow> bool" where
  "one_panel w \<longleftrightarrow>
     live w = (case currentPanel w of None \<Rightarrow> [] | Some p \<Rightarrow> [p]) \<and>
     (\<forall>h. PanelDispose h \<in> set (trace w) \<longrightarrow> h < hostNext w) \<and>
     (\<forall>p \<in> set (instances w). panel p < hostNext w)"

section \<open>Basic facts\<close>

lemma logged_fields [simp]:
  "trace (logged w es) = trace w @ es"
  "broker_values (logged w es) = broker_values w"
  "currentPanel (logged w es) = currentPanel w"
  "instances (logged w es) = instances w"
  "disposables (logged w es) = disposables w"
  "hostNext (logged w es) = hostNext w"
  "hostFaults (logged w es) = hostFaults w"
  "brokerCalls (logged w es) = brokerCalls w"
  by (simp_all add: logged_def)

lemma logged_Nil [simp]: "logged w [] = w"
  by (simp add: logged_def)

lemma logged_logged [simp]: "logged (logged w es) fs = logged w (es @ fs)"
  by (simp add: logged_def)

lemma called_fields [simp]:
  "trace (called m w) = trace w"
  "broker_values (called m w) = broker_values w"
  "currentPanel (called m w) = currentPanel w"
  "instances (called m w) = instances w"
  "disposables (called m w) = disposables w"
  "hostNext (called m w) = hostNext w"
  "hostFaults (called m w) = hostFaults w"
  "brokerCalls (called m w) = brokerCalls w @ [m]"
  by (simp_all add: called_def)

lemma set_slot_fields [simp]:
  "trace (set_slot name e w) = trace w"
  "currentPanel (set_slot name e w) = currentPanel w"
  "instances (set_slot name e w) = instances w"
  "disposables (set_slot name e w) = disposables w"
  "hostNext (set_slot name e w) = hostNext w"
  "hostFaults (set_slot name e w) = hostFaults w"
  "brokerCalls (set_slot name e w) = brokerCalls w"
  "map fst (broker_values (set_slot name e w)) = map fst (broker_values w)"
  by (simp_all add: set_slot_def case_prod_unfold o_def)

lemma andThen_simps [simp]:
  "andThen (Inr w) f = f w"
  "andThen (Inl x) f = Inl x"
  by (simp_all add: andThen_def)

lemma world_of_simps [simp]:
  "world_of (Inr w) = w"
  "world_of (Inl (e, w)) = w"
  by (simp_all add: world_of_def)

lemma thrown_simps [simp]:
  "thrown (Inr w) = None"
  "thrown (Inl (e, w)) = Some e"
  by (simp_all add: thrown_def)

lemma invoke_logged: "invoke cb v w = logged w (observed (currentPanel w) cb v)"
  by (cases cb; cases "currentPanel w") (simp_all add: relay_def postOneMessage_def)

lemma invoke_all_logged:
  "invoke_all cbs v w = logged w (concat (map (\<lambda>cb. observed (currentPanel w) cb v) cbs))"
  by (induction cbs arbitrary: w) (simp_all add: invoke_logged)

lemma map_of_overwrite:
  "map_of (map (\<lambda>(n, x). if n = name then (n, e) else (n, x)) xs) k =
     (if k = name then map_option (\<lambda>x. e) (map_of xs k) else map_of xs k)"
  by (induction xs) auto

lemma slot_set_slot:
  "slot k (set_slot name e w) = (if k = name then map_option (\<lambda>x. e) (slot k w) else slot k w)"
  by (simp add: slot_def set_slot_def map_of_overwrite)

lemma slot_logged [simp]: "slot k (logged w es) = slot k w"
  by (simp add: slot_def)

lemma slot_called [simp]: "slot k (called m w) = slot k w"
  by (simp add: slot_def)

lemma overwrite_as_map:
  "distinct (map fst xs) \<Longrightarrow> map_of xs name = Some e \<Longrightarrow>
     map (\<lambda>(n, x). if n = name then (n, f e) else (n, x)) xs =
     map (\<lambda>(n, x). if n = name then (n, f x) else (n, x)) xs"
  by (rule map_cong) (auto dest: map_of_SomeD eq_key_imp_eq_value)

lemma set_slot_as_map:
  "distinct (map fst (broker_values w)) \<Longrightarrow> slot name w = Some e \<Longrightarrow>
     set_slot name (f e) w =
     w\<lparr>broker_values := map (\<lambda>(n, x). if n = name then (n, f x) else (n, x)) (broker_values w)\<rparr>"
  by (simp add: set_slot_def slot_def overwrite_as_map)

lemma set_slot_same:
  "distinct (map fst (broker_values w)) \<Longrightarrow> slot name w = Some e \<Longrightarrow> set_slot name e w = w"
  using set_slot_as_map [of w name e "\<lambda>x. x"]
  by (simp add: case_prod_unfold)

lemma slot_in_keys: "k \<in> fst ` set (broker_values w) \<Longrightarrow> \<exists>e. slot k w = Some e"
  by (metis slot_def domD dom_map_of_conv_image_fst)

lemma for_in_update:
  assumes body: "\<And>k w e. slot k w = Some e \<Longrightarrow> body k w = Inr (set_slot k (f k e) w)"
  shows "distinct (map fst (broker_values w)) \<Longrightarrow> distinct ks \<Longrightarrow>
         set ks \<subseteq> fst ` set (broker_values w) \<Longrightarrow>
         for_in ks body w =
           Inr (w\<lparr>broker_values :=
                    map (\<lambda>(n, e). if n \<in> set ks then (n, f n e) else (n, e)) (broker_values w)\<rparr>)"
proof (induction ks arbitrary: w)
  case Nil
  then show ?case by (simp add: case_prod_unfold)
next
  case (Cons k ks)
  from Cons.prems obtain e where e: "slot k w = Some e"
    using slot_in_keys [of k w] by auto
  let ?w1 = "set_slot k (f k e) w"
  have w1: "?w1 = w\<lparr>broker_values :=
      map (\<lambda>(n, x). if n = k then (n, f k x) else (n, x)) (broker_values w)\<rparr>"
    using set_slot_as_map [OF Cons.prems(1) e, of "f k"] .
  have keys: "map fst (broker_values ?w1) = map fst (broker_values w)" by simp
  have "for_in ks body ?w1 =
      Inr (?w1\<lparr>broker_values :=
             map (\<lambda>(n, e). if n \<in> set ks then (n, f n e) else (n, e)) (broker_values ?w1)\<rparr>)"
  proof (rule Cons.IH)
    show "distinct (map fst (broker_values ?w1))" using Cons.prems(1) keys by simp
    show "distinct ks" using Cons.prems(2) by simp
    have "fst ` set (broker_values ?w1) = fst ` set (broker_values w)"
      using keys by (metis list.set_map)
    then show "set ks \<subseteq> fst ` set (broker_values ?w1)" using Cons.prems(3) by simp
  qed
  moreover have "k \<notin> set ks" using Cons.prems(2) by simp
  ultimately show ?case
    using body [OF e] by (simp add: w1 case_prod_unfold o_def)
qed

section \<open>The broker loops and the disposal loop, in closed form\<close>

lemma subscribe_Some:
  "slot name w = Some e \<Longrightarrow>
     subscribe name cb w = Inr (set_slot name (e\<lparr>subscribers := subscribers e @ [cb]\<rparr>) w)"
  by (simp add: subscribe_def)

lemma dispose_emitter_Some:
  "slot name w = Some e \<Longrightarrow>
     dispose_emitter name w = Inr (set_slot name (e\<lparr>subscribers := []\<rparr>) w)"
  by (simp add: dispose_emitter_def)

lemma emit_Some:
  "slot name w = Some e \<Longrightarrow>
     emit name (Some v) w =
       Inr (logged (set_slot name (e\<lparr>currentValue := v\<rparr>) w)
              (concat (map (\<lambda>cb. observed (currentPanel w) cb v) (subscribers e))))"
  by (simp add: emit_def invoke_all_logged)

lemma emit_None:
  "distinct (map fst (broker_values w)) \<Longrightarrow> slot name w = Some e \<Longrightarrow>
     emit name None w = Inr (logged w (deliveries (currentPanel w) e))"
  by (simp add: emit_def invoke_all_logged set_slot_same deliveries_def)

lemma map_all_keys:
  "map (\<lambda>(n, e). if n \<in> fst ` set xs then (n, f n e) else (n, e)) xs =
   map (\<lambda>(n, e). (n, f n e)) xs"
  by (rule map_cong) (auto simp: rev_image_eqI)

lemma activate_eq:
  assumes "distinct (map fst (broker_values w))"
  shows "activate w =
     Inr ((called Activate w)\<lparr>broker_values :=
            map (\<lambda>(n, e). (n, e\<lparr>subscribers := subscribers e @ [Relay n]\<rparr>)) (broker_values w)\<rparr>)"
proof -
  have "for_in (map fst (broker_values (called Activate w)))
          (\<lambda>oneProperty. subscribe oneProperty (Relay oneProperty)) (called Activate w) =
        Inr ((called Activate w)\<lparr>broker_values :=
          map (\<lambda>(n, e). if n \<in> set (map fst (broker_values (called Activate w)))
                 then (n, e\<lparr>subscribers := subscribers e @ [Relay n]\<rparr>) else (n, e))
            (broker_values (called Activate w))\<rparr>)"
    by (rule for_in_update) (use assms in \<open>simp_all add: subscribe_Some\<close>)
  then show ?thesis
    by (simp add: activate_def map_all_keys)
qed

lemma deActivate_eq:
  assumes "distinct (map fst (broker_values w))"
  shows "deActivate w =
     Inr ((called DeActivate w)\<lparr>broker_values :=
            map (\<lambda>(n, e). (n, e\<lparr>subscribers := []\<rparr>)) (broker_values w)\<rparr>)"
proof -
  have "for_in (map fst (broker_values (called DeActivate w)))
          (\<lambda>oneProperty. dispose_emitter oneProperty) (called DeActivate w) =
        Inr ((called DeActivate w)\<lparr>broker_values :=
          map (\<lambda>(n, e). if n \<in> set (map fst (broker_values (called DeActivate w)))
                 then (n, e\<lparr>subscribers := []\<rparr>) else (n, e))
            (broker_values (called DeActivate w))\<rparr>)"
    by (rule for_in_update) (use assms in \<open>simp_all add: dispose_emitter_Some\<close>)
  then show ?thesis
    by (simp add: deActivate_def map_all_keys)
qed

lemma for_in_emit:
  "distinct (map fst (broker_values w)) \<Longrightarrow> set ks \<subseteq> fst ` set (broker_values w) \<Longrightarrow>
   currentPanel w = cp \<Longrightarrow> broker_values w = xs \<Longrightarrow>
   for_in ks (\<lambda>oneProperty. emit oneProperty None) w =
     Inr (logged w (concat (map (\<lambda>k. case map_of xs k of None \<Rightarrow> []
                                      | Some e \<Rightarrow> deliveries cp e) ks)))"
proof (induction ks arbitrary: w)
  case Nil
  then show ?case by simp
next
  case (Cons k ks)
  from Cons.prems obtain e where e: "slot k w = Some e"
    using slot_in_keys [of k w] by auto
  let ?w1 = "logged w (deliveries (currentPanel w) e)"
  have "for_in ks (\<lambda>oneProperty. emit oneProperty None) ?w1 =
     Inr (logged ?w1 (concat (map (\<lambda>k. case map_of xs k of None \<Rightarrow> []
                                      | Some e \<Rightarrow> deliveries cp e) ks)))"
    by (rule Cons.IH) (use Cons.prems in simp_all)
  then show ?case
    using emit_None [OF Cons.prems(1) e] e Cons.prems(3,4) by (simp add: slot_def)
qed

lemma per_key_as_per_entry:
  "distinct (map fst xs) \<Longrightarrow>
   map (\<lambda>k. case map_of xs k of None \<Rightarrow> [] | Some e \<Rightarrow> g e) (map fst xs) =
   map (\<lambda>(n, e). g e) xs"
  by (auto simp: map_of_eq_Some_iff [THEN iffD2])

lemma emitAll_eq:
  assumes "distinct (map fst (broker_values w))"
  shows "emitAll w =
     Inr (logged (called EmitAll w)
            (concat (map (\<lambda>(n, e). deliveries (currentPanel w) e) (broker_values w))))"
proof -
  have "for_in (map fst (broker_values w))
          (\<lambda>oneProperty. emit oneProperty None) (called EmitAll w) =
        Inr (logged (called EmitAll w)
          (concat (map (\<lambda>k. case map_of (broker_values w) k of None \<Rightarrow> []
                         | Some e \<Rightarrow> deliveries (currentPanel w) e)
             (map fst (broker_values w)))))"
    by (rule for_in_emit) (use assms in simp_all)
  then show ?thesis
    unfolding per_key_as_per_entry [OF assms] by (simp add: emitAll_def)
qed

lemma release_ok: "d \<notin> set (hostFaults w) \<Longrightarrow> release d w = Inr (logged w [Released d])"
  by (simp add: release_def)

lemma release_fault: "d \<in> set (hostFaults w) \<Longrightarrow> release d w = Inl (DisposeFailed d, w)"
  by (simp add: release_def)

text \<open>
  The loop releases the disposables from the last one pushed backwards, up to the first
  that throws.
\<close>

lemma dispose_loop_eq:
  "disposables w i = ds \<Longrightarrow>
   dispose_loop i w =
     (case dropWhile (\<lambda>d. d \<notin> set (hostFaults w)) (rev ds) of
        [] \<Rightarrow> Inr (logged (w\<lparr>disposables := (disposables w)(i := [])\<rparr>) (map Released (rev ds)))
      | d # rest \<Rightarrow>
          Inl (DisposeFailed d,
               logged (w\<lparr>disposables := (disposables w)(i := rev rest)\<rparr>)
                 (map Released (takeWhile (\<lambda>d. d \<notin> set (hostFaults w)) (rev ds)))))"
proof (induction ds arbitrary: w rule: rev_induct)
  case Nil
  then have "(disposables w)(i := []) = disposables w"
    by (metis fun_upd_triv)
  with Nil show ?case
    by (subst dispose_loop.simps) simp
next
  case (snoc x xs)
  let ?w1 = "w\<lparr>disposables := (disposables w)(i := xs)\<rparr>"
  show ?case
  proof (cases "x \<in> set (hostFaults w)")
    case True
    then show ?thesis
      using snoc.prems
      by (subst dispose_loop.simps) (simp add: release_fault)
  next
    case False
    have "dispose_loop i (logged ?w1 [Released x]) =
       (case dropWhile (\<lambda>d. d \<notin> set (hostFaults (logged ?w1 [Released x]))) (rev xs) of
        [] \<Rightarrow> Inr (logged ((logged ?w1 [Released x])\<lparr>disposables :=
                 (disposables (logged ?w1 [Released x]))(i := [])\<rparr>) (map Released (rev xs)))
      | d # rest \<Rightarrow>
          Inl (DisposeFailed d,
               logged ((logged ?w1 [Released x])\<lparr>disposables :=
                   (disposables (logged ?w1 [Released x]))(i := rev rest)\<rparr>)
                 (map Released (takeWhile (\<lambda>d. d \<notin> set (hostFaults (logged ?w1 [Released x]))) (rev xs)))))"
      by (rule snoc.IH) simp
    then show ?thesis
      using snoc.prems False
      by (subst dispose_loop.simps)
         (cases "dropWhile (\<lambda>d. d \<notin> set (hostFaults w)) (rev xs)";
          simp add: release_ok logged_def del: dropWhile_eq_Nil_conv)
  qed
qed

lemma for_in_emit_returns:
  "set ks \<subseteq> fst ` set (broker_values w) \<Longrightarrow>
   \<exists>w'. for_in ks (\<lambda>oneProperty. emit oneProperty None) w = Inr w' \<and>
        brokerCalls w' = brokerCalls w \<and>
        map fst (broker_values w') = map fst (broker_values w)"
proof (induction ks arbitrary: w)
  case Nil
  then show ?case by simp
next
  case (Cons k ks)
  from Cons.prems obtain e where e: "slot k w = Some e"
    using slot_in_keys [of k w] by auto
  define w1 where "w1 = invoke_all (subscribers e) (currentValue e)
                          (set_slot k (e\<lparr>currentValue := currentValue e\<rparr>) w)"
  have step: "emit k None w = Inr w1"
    using e by (simp add: emit_def w1_def)
  have keys: "map fst (broker_values w1) = map fst (broker_values w)"
    and calls: "brokerCalls w1 = brokerCalls w"
    by (simp_all add: w1_def invoke_all_logged)
  have "fst ` set (broker_values w1) = fst ` set (broker_values w)"
    using keys by (metis list.set_map)
  with Cons.prems have "set ks \<subseteq> fst ` set (broker_values w1)" by simp
  from Cons.IH [OF this] obtain w' where
    "for_in ks (\<lambda>oneProperty. emit oneProperty None) w1 = Inr w'"
    "brokerCalls w' = brokerCalls w1"
    "map fst (broker_values w') = map fst (broker_values w1)"
    by blast
  then show ?case
    using step keys calls by simp
qed

lemma emitAll_returns:
  "\<exists>w'. emitAll w = Inr w' \<and> brokerCalls w' = brokerCalls w @ [EmitAll]"
  using for_in_emit_returns [of "map fst (broker_values w)" "called EmitAll w"]
  by (auto simp: emitAll_def)

section \<open>The inbound message handler\<close>

lemma onDidReceiveMessage_unreadable:
  "message = JNull \<or> message = JUndefined \<Longrightarrow>
     onDidReceiveMessage_listener message w = Inl (TypeError, w)"
  by (auto simp: onDidReceiveMessage_listener_def)

lemma get_type_readable:
  "(\<exists>t. get_type message = Inr t) \<longleftrightarrow> message \<noteq> JNull \<and> message \<noteq> JUndefined"
  by (cases message) simp_all

text \<open>
  C2, as the code has it. The \<open>type\<close> of an inbound message can be read exactly when
  the message is neither \<open>null\<close> nor \<open>undefined\<close>. For every such message: if its
  \<open>type\<close> is the string \<open>onReady\<close>, the handler makes exactly one call of the
  broker's \<open>emitAll\<close>, which returns; if it is anything else (another string, another
  kind of value, or absent), the handler leaves the state as it was, so it makes no
  broker call, and raises nothing. On \<open>null\<close> and on \<open>undefined\<close> the handler raises
  a \<open>TypeError\<close> and leaves the state as it was.
\<close>

theorem onDidReceiveMessage_onReady:
  "(get_type message = Inr t \<longrightarrow>
      (t = JString ''onReady'' \<longrightarrow>
         onDidReceiveMessage_listener message w = emitAll w \<and>
         thrown (emitAll w) = None \<and>
         brokerCalls (world_of (emitAll w)) = brokerCalls w @ [EmitAll]) \<and>
      (t \<noteq> JString ''onReady'' \<longrightarrow>
         onDidReceiveMessage_listener message w = Inr w)) \<and>
   ((\<exists>t. get_type message = Inr t) \<longleftrightarrow> message \<noteq> JNull \<and> message \<noteq> JUndefined) \<and>
   (message = JNull \<or> message = JUndefined \<longrightarrow>
      onDidReceiveMessage_listener message w = Inl (TypeError, w))"
proof -
  have readable: "(t = JString ''onReady'' \<longrightarrow>
         onDidReceiveMessage_listener message w = emitAll w \<and>
         thrown (emitAll w) = None \<and>
         brokerCalls (world_of (emitAll w)) = brokerCalls w @ [EmitAll]) \<and>
      (t \<noteq> JString ''onReady'' \<longrightarrow>
         onDidReceiveMessage_listener message w = Inr w)"
    if "get_type message = Inr t"
    using that emitAll_returns [of w]
    by (auto simp: onDidReceiveMessage_listener_def)
  show ?thesis
    using readable get_type_readable [of message] onDidReceiveMessage_unreadable [of message w]
    by blast
qed

theorem onDidReceiveMessage_onReady_witness:
  "get_type (JObject [(''type'', JString ''onReady'')]) = Inr (JString ''onReady'') \<and>
   brokerCalls (world_of (onDidReceiveMessage_listener
       (JObject [(''type'', JString ''onReady'')]) (init_world []))) = [EmitAll] \<and>
   get_type (JObject [(''type'', JString ''resize''), (''width'', JNumber 3)]) =
     Inr (JString ''resize'') \<and>
   onDidReceiveMessage_listener
       (JObject [(''type'', JString ''resize''), (''width'', JNumber 3)]) (init_world []) =
     Inr (init_world []) \<and>
   onDidReceiveMessage_listener JUndefined (init_world []) = Inl (TypeError, init_world [])"
proof -
  have ready: "get_type (JObject [(''type'', JString ''onReady'')]) = Inr (JString ''onReady'')"
    by simp
  have other: "get_type (JObject [(''type'', JString ''resize''), (''width'', JNumber 3)]) =
     Inr (JString ''resize'')"
    by simp
  have differs: "JString ''resize'' \<noteq> JString ''onReady''"
    by simp
  have calls: "brokerCalls (init_world []) = []"
    by (simp add: init_world_def)
  have one: "onDidReceiveMessage_listener (JObject [(''type'', JString ''onReady'')])
        (init_world []) = emitAll (init_world []) \<and>
      brokerCalls (world_of (emitAll (init_world []))) = brokerCalls (init_world []) @ [EmitAll]"
    using onDidReceiveMessage_onReady
        [where message = "JObject [(''type'', JString ''onReady'')]"
           and t = "JString ''onReady''" and w = "init_world []"] ready
    by blast
  have ignored: "onDidReceiveMessage_listener
        (JObject [(''type'', JString ''resize''), (''width'', JNumber 3)]) (init_world []) =
      Inr (init_world [])"
    using onDidReceiveMessage_onReady
        [where message = "JObject [(''type'', JString ''resize''), (''width'', JNumber 3)]"
           and t = "JString ''resize''" and w = "init_world []"] other differs
    by blast
  have raised: "onDidReceiveMessage_listener JUndefined (init_world []) =
      Inl (TypeError, init_world [])"
    using onDidReceiveMessage_onReady
        [where message = JUndefined and t = JUndefined and w = "init_world []"]
    by blast
  show ?thesis
    using ready other one ignored raised calls by simp
qed

text \<open>
  C2, as the claim states it, fails. The surface posts \<open>null\<close>. Its type is not
  \<open>onReady\<close>, no broker call is made, and the handler raises a \<open>TypeError\<close> where
  the claim has the message silently ignored.
\<close>

theorem onDidReceiveMessage_null_raises:
  "get_type JNull \<noteq> Inr (JString ''onReady'') \<and>
   thrown (onDidReceiveMessage_listener JNull (init_world [])) = Some TypeError \<and>
   brokerCalls (world_of (onDidReceiveMessage_listener JNull (init_world []))) = []"
  by (simp add: onDidReceiveMessage_listener_def init_world_def)

section \<open>Delivery to subscribers\<close>

lemma set_slot_twice [simp]: "set_slot name e2 (set_slot name e1 w) = set_slot name e2 w"
  by (simp add: set_slot_def case_prod_unfold o_def)

lemma slot_set_slot_same: "slot name w = Some e \<Longrightarrow> slot name (set_slot name e' w) = Some e'"
  by (simp add: slot_set_slot)

lemma subscribe_each_eq:
  "distinct (map fst (broker_values w)) \<Longrightarrow> slot name w = Some e \<Longrightarrow>
   subscribe_each name cbs w = Inr (set_slot name (e\<lparr>subscribers := subscribers e @ cbs\<rparr>) w)"
proof (induction cbs arbitrary: w e)
  case Nil
  then show ?case by (simp add: set_slot_same)
next
  case (Cons cb cbs)
  let ?e1 = "e\<lparr>subscribers := subscribers e @ [cb]\<rparr>"
  have "subscribe_each name cbs (set_slot name ?e1 w) =
          Inr (set_slot name (?e1\<lparr>subscribers := subscribers ?e1 @ cbs\<rparr>) (set_slot name ?e1 w))"
    by (rule Cons.IH) (use Cons.prems in \<open>simp_all add: slot_set_slot_same\<close>)
  then show ?case
    using Cons.prems by (simp add: subscribe_Some)
qed

lemma observed_consumers:
  "concat (map (\<lambda>c. observed cp (Consumer c) v) cs) = map (\<lambda>c. Invoked c v) cs"
  by (induction cs) simp_all

lemma init_world_facts [simp]:
  "distinct (map fst (broker_values (init_world faults)))"
  "slot ''latestPqTestResult'' (init_world faults) =
     Some \<lparr>currentValue = JUndefined, subscribers = []\<rparr>"
  "currentPanel (init_world faults) = None"
  "trace (init_world faults) = []"
  "brokerCalls (init_world faults) = []"
  "instances (init_world faults) = []"
  "hostNext (init_world faults) = 0"
  "hostFaults (init_world faults) = faults"
  "broker_values (init_world faults) =
     [(''latestPqTestResult'', \<lparr>currentValue = JUndefined, subscribers = []\<rparr>)]"
  by (simp_all add: init_world_def slot_def)

text \<open>
  C5. For every slot and every sequence of \<open>subscribe\<close> calls followed by one
  \<open>emit\<close> of a new value: the value is stored first (the subscribers run on the state
  that already holds it), and then every subscriber registered on the slot, the earlier
  ones and the new ones, is invoked once, in subscription order, with the new value.
\<close>

theorem emit_invokes_in_subscription_order:
  assumes "distinct (map fst (broker_values w))" and "slot name w = Some e"
  shows "andThen (subscribe_each name cbs w) (emit name (Some v)) =
           Inr (invoke_all (subscribers e @ cbs) v
                  (set_slot name (e\<lparr>subscribers := subscribers e @ cbs, currentValue := v\<rparr>) w)) \<and>
         slot name (world_of (andThen (subscribe_each name cbs w) (emit name (Some v)))) =
           Some (e\<lparr>subscribers := subscribers e @ cbs, currentValue := v\<rparr>) \<and>
         trace (world_of (andThen (subscribe_each name cbs w) (emit name (Some v)))) =
           trace w @ concat (map (\<lambda>cb. observed (currentPanel w) cb v) (subscribers e @ cbs)) \<and>
         (subscribers e = [] \<longrightarrow>
            trace (world_of (andThen (subscribe_each name (map Consumer cs) w)
                                     (emit name (Some v)))) =
              trace w @ map (\<lambda>c. Invoked c v) cs)"
proof -
  have sub: "\<And>cbs. subscribe_each name cbs w =
      Inr (set_slot name (e\<lparr>subscribers := subscribers e @ cbs\<rparr>) w)"
    using assms by (rule subscribe_each_eq)
  have found: "\<And>cbs. slot name (set_slot name (e\<lparr>subscribers := subscribers e @ cbs\<rparr>) w) =
      Some (e\<lparr>subscribers := subscribers e @ cbs\<rparr>)"
    using assms(2) by (rule slot_set_slot_same)
  have run: "\<And>cbs. andThen (subscribe_each name cbs w) (emit name (Some v)) =
      Inr (invoke_all (subscribers e @ cbs) v
             (set_slot name (e\<lparr>subscribers := subscribers e @ cbs, currentValue := v\<rparr>) w))"
    by (simp add: sub emit_def found)
  show ?thesis
    using assms(2)
    by (simp add: run invoke_all_logged slot_set_slot_same observed_consumers o_def)
qed

theorem emit_invokes_in_subscription_order_witness:
  "trace (world_of (andThen
      (subscribe_each ''latestPqTestResult'' [Consumer 1, Consumer 2, Consumer 1] (init_world []))
      (emit ''latestPqTestResult'' (Some (JNumber 5))))) =
     [Invoked 1 (JNumber 5), Invoked 2 (JNumber 5), Invoked 1 (JNumber 5)] \<and>
   slot ''latestPqTestResult'' (world_of (andThen
      (subscribe_each ''latestPqTestResult'' [Consumer 1, Consumer 2, Consumer 1] (init_world []))
      (emit ''latestPqTestResult'' (Some (JNumber 5))))) =
     Some \<lparr>currentValue = JNumber 5, subscribers = [Consumer 1, Consumer 2, Consumer 1]\<rparr>"
  using emit_invokes_in_subscription_order
          [of "init_world []" "''latestPqTestResult''"
              "\<lparr>currentValue = JUndefined, subscribers = []\<rparr>"
              "[Consumer 1, Consumer 2, Consumer 1]" "JNumber 5" "[1, 2, 1]"]
  by (simp add: slot_set_slot del: subscribe_each.simps)

text \<open>
  C6. \<open>emitAll\<close> re-delivers: for every slot of the mapping, in order, it invokes all
  of the slot's registered subscribers with the slot's stored value; the stored values
  are left as they were, and a second \<open>emitAll\<close> delivers the same values again.
\<close>

theorem emitAll_redelivers:
  assumes "distinct (map fst (broker_values w))"
  shows "emitAll w =
           Inr (logged (called EmitAll w)
                  (concat (map (\<lambda>(n, e). deliveries (currentPanel w) e) (broker_values w)))) \<and>
         broker_values (world_of (emitAll w)) = broker_values w \<and>
         trace (world_of (andThen (emitAll w) emitAll)) =
           trace w @ concat (map (\<lambda>(n, e). deliveries (currentPanel w) e) (broker_values w))
                   @ concat (map (\<lambda>(n, e). deliveries (currentPanel w) e) (broker_values w))"
proof -
  let ?w1 = "logged (called EmitAll w)
               (concat (map (\<lambda>(n, e). deliveries (currentPanel w) e) (broker_values w)))"
  have first: "emitAll w = Inr ?w1"
    using assms by (rule emitAll_eq)
  have "distinct (map fst (broker_values ?w1))"
    using assms by simp
  then have "emitAll ?w1 =
      Inr (logged (called EmitAll ?w1)
             (concat (map (\<lambda>(n, e). deliveries (currentPanel ?w1) e) (broker_values ?w1))))"
    by (rule emitAll_eq)
  then show ?thesis
    by (simp add: first)
qed

theorem emitAll_redelivers_witness:
  "trace (world_of (andThen (andThen (andThen
      (subscribe ''latestPqTestResult'' (Consumer 7) (init_world []))
      (emit ''latestPqTestResult'' (Some (JString ''r''))))
      emitAll) emitAll)) =
     [Invoked 7 (JString ''r''), Invoked 7 (JString ''r''), Invoked 7 (JString ''r'')]"
proof -
  let ?w = "logged (set_slot ''latestPqTestResult''
                      \<lparr>currentValue = JString ''r'', subscribers = [Consumer 7]\<rparr> (init_world []))
              [Invoked 7 (JString ''r'')]"
  have w: "andThen (subscribe ''latestPqTestResult'' (Consumer 7) (init_world []))
                   (emit ''latestPqTestResult'' (Some (JString ''r''))) = Inr ?w"
    by (simp add: subscribe_def emit_def slot_set_slot Let_def)
  have slots: "broker_values ?w =
      [(''latestPqTestResult'', \<lparr>currentValue = JString ''r'', subscribers = [Consumer 7]\<rparr>)]"
    by (simp add: set_slot_def)
  have d: "distinct (map fst (broker_values ?w))"
    by (simp add: slots)
  have run: "andThen (andThen (andThen
      (subscribe ''latestPqTestResult'' (Consumer 7) (init_world []))
      (emit ''latestPqTestResult'' (Some (JString ''r''))))
      emitAll) emitAll = andThen (emitAll ?w) emitAll"
    by (simp add: w)
  have "trace (world_of (andThen (emitAll ?w) emitAll)) =
      trace ?w @ concat (map (\<lambda>(n, e). deliveries (currentPanel ?w) e) (broker_values ?w))
              @ concat (map (\<lambda>(n, e). deliveries (currentPanel ?w) e) (broker_values ?w))"
    using emitAll_redelivers [OF d] by blast
  also have "\<dots> = [Invoked 7 (JString ''r''), Invoked 7 (JString ''r''), Invoked 7 (JString ''r'')]"
    by (simp add: deliveries_def set_slot_def)
  finally show ?thesis
    by (simp only: run)
qed

section \<open>Deactivation and repeated activation\<close>

lemma map_of_map_entries:
  "map_of (map (\<lambda>(n, e). (n, f n e)) xs) k = map_option (f k) (map_of xs k)"
  by (induction xs) auto

lemma slot_map_entries:
  "slot k (w\<lparr>broker_values := map (\<lambda>(n, e). (n, f n e)) xs\<rparr>) =
     map_option (f k) (map_of xs k)"
  by (simp add: slot_def map_of_map_entries)

lemma keys_map_entries [simp]:
  "map fst (map (\<lambda>(n, e). (n, f n e)) xs) = map fst xs"
  "map (fst \<circ> (\<lambda>(n, e). (n, f n e))) xs = map fst xs"
  by (induction xs) auto

text \<open>
  C7. \<open>deActivate\<close> returns with every slot's subscriber list empty; an \<open>emit\<close> of
  any value on a slot after it stores that value as the slot's current value and
  invokes no subscriber (the trace is as it was before).
\<close>

theorem deActivate_then_emit:
  assumes "distinct (map fst (broker_values w))" and "slot name w = Some e"
  shows "thrown (deActivate w) = None \<and>
         (\<forall>(n, x) \<in> set (broker_values (world_of (deActivate w))). subscribers x = []) \<and>
         thrown (andThen (deActivate w) (emit name (Some v))) = None \<and>
         slot name (world_of (andThen (deActivate w) (emit name (Some v)))) =
           Some \<lparr>currentValue = v, subscribers = []\<rparr> \<and>
         trace (world_of (andThen (deActivate w) (emit name (Some v)))) = trace w"
proof -
  define w1 where "w1 = (called DeActivate w)\<lparr>broker_values :=
      map (\<lambda>(n, e). (n, e\<lparr>subscribers := []\<rparr>)) (broker_values w)\<rparr>"
  have off: "deActivate w = Inr w1"
    unfolding w1_def using assms(1) by (rule deActivate_eq)
  have cleared: "\<forall>(n, x) \<in> set (broker_values w1). subscribers x = []"
    by (auto simp: w1_def)
  have found: "slot name w1 = Some (e\<lparr>subscribers := []\<rparr>)"
    using assms(2) unfolding w1_def slot_map_entries by (simp add: slot_def)
  have quiet: "trace w1 = trace w"
    by (simp add: w1_def)
  have after: "emit name (Some v) w1 =
      Inr (set_slot name (e\<lparr>subscribers := [], currentValue := v\<rparr>) w1)"
    by (simp add: emit_Some [OF found])
  have "slot name (set_slot name (e\<lparr>subscribers := [], currentValue := v\<rparr>) w1) =
      Some (e\<lparr>subscribers := [], currentValue := v\<rparr>)"
    using found by (rule slot_set_slot_same)
  then show ?thesis
    using cleared by (simp add: after off quiet)
qed

theorem deActivate_then_emit_witness:
  "slot ''latestPqTestResult'' (world_of (andThen
      (deActivate (world_of (subscribe ''latestPqTestResult'' (Consumer 4) (init_world []))))
      (emit ''latestPqTestResult'' (Some (JBool False))))) =
     Some \<lparr>currentValue = JBool False, subscribers = []\<rparr> \<and>
   trace (world_of (andThen
      (deActivate (world_of (subscribe ''latestPqTestResult'' (Consumer 4) (init_world []))))
      (emit ''latestPqTestResult'' (Some (JBool False))))) = []"
proof -
  let ?w = "set_slot ''latestPqTestResult''
              \<lparr>currentValue = JUndefined, subscribers = [Consumer 4]\<rparr> (init_world [])"
  have w: "world_of (subscribe ''latestPqTestResult'' (Consumer 4) (init_world [])) = ?w"
    by (simp add: subscribe_def)
  have d: "distinct (map fst (broker_values ?w))"
    by simp
  have s: "slot ''latestPqTestResult'' ?w =
      Some \<lparr>currentValue = JUndefined, subscribers = [Consumer 4]\<rparr>"
    by (simp add: slot_set_slot)
  have t: "trace ?w = []"
    by simp
  show ?thesis
    using deActivate_then_emit [OF d s, of "JBool False"]
    by (simp only: w t)
qed



section \<open>The relay and the outbound envelope\<close>

lemma createOrShow_Some:
  "currentPanel w = Some current \<Longrightarrow> createOrShow uri w = logged w [Reveal (panel current)]"
  by (simp add: createOrShow_def)

lemma createOrShow_None:
  "currentPanel w = None \<Longrightarrow>
   createOrShow uri w =
     w\<lparr>currentPanel :=
         Some \<lparr>ident = length (instances w), panel = hostNext w, extensionUri = uri\<rparr>,
       instances := instances w @
         [\<lparr>ident = length (instances w), panel = hostNext w, extensionUri = uri\<rparr>],
       disposables := (disposables w)
         (length (instances w) := [Suc (hostNext w), Suc (Suc (hostNext w)), Suc (Suc (Suc (hostNext w)))]),
       hostNext := Suc (Suc (Suc (Suc (hostNext w)))),
       trace := trace w @
         [ExecuteCommand ''workbench.action.editorLayoutTwoColumns'',
          CreateWebviewPanel (hostNext w) viewType ''PQTest result'' Beside (getWebviewOptions uri),
          SetTitle (hostNext w) ''PQTest result webview'',
          SetHtml (hostNext w) (BootstrapDocument (joinPath uri (viewPaths @ [''main.js'']))),
          Listen (hostNext w) OnDidDispose (Suc (hostNext w)),
          Listen (hostNext w) OnDidChangeViewState (Suc (Suc (hostNext w))),
          Listen (hostNext w) OnDidReceiveMessage (Suc (Suc (Suc (hostNext w))))]\<rparr>"
  by (simp add: createOrShow_def new_PqTestResultViewPanel_def listen_def update_def
        getHtmlForWebview_def logged_def Let_def)

lemma posted_logged:
  "posted (logged w es) =
     posted w @ concat (map (\<lambda>ev. case ev of PostMessage p m \<Rightarrow> [(p, m)] | _ \<Rightarrow> []) es)"
  by (simp add: posted_def)

lemma posted_createOrShow: "posted (createOrShow uri w) = posted w"
  by (cases "currentPanel w") (simp_all add: createOrShow_None createOrShow_Some posted_def)

lemma received_logged:
  "received c (logged w es) =
     received c w @
     concat (map (\<lambda>ev. case ev of Invoked c' v \<Rightarrow> if c' = c then [v] else [] | _ \<Rightarrow> []) es)"
  by (simp add: received_def)

lemma relay_Some:
  "currentPanel w = Some p \<Longrightarrow>
     relay oneProperty v w =
       logged w [PostMessage (panel p)
                   (envelope ''OnOneValueUpdated''
                      (JObject [(''property'', JString oneProperty), (''value'', v)]))]"
  by (simp add: relay_def postOneMessage_def)

lemma relay_None: "currentPanel w = None \<Longrightarrow> relay oneProperty v w = w"
  by (simp add: relay_def)

text \<open>
  C4, as the code has it. With a panel present and the relay of one activation on the
  slot, subscribing a consumer and emitting a value hands the surface exactly one
  envelope \<open>{type: "OnOneValueUpdated", payload: {property, value}}\<close> and then
  invokes the consumer exactly once, with the emitted value itself: the envelope goes to
  the surface, not to the consumer. Each invocation of the relay posts exactly one such
  envelope.
\<close>

theorem emit_posts_envelope_and_invokes_consumer:
  assumes "slot name w = Some e" and "subscribers e = [Relay name]"
    and "currentPanel w = Some p"
  shows "thrown (andThen (subscribe name (Consumer c) w) (emit name (Some v))) = None \<and>
         trace (world_of (andThen (subscribe name (Consumer c) w) (emit name (Some v)))) =
           trace w @
             [PostMessage (panel p)
                (JObject [(''type'', JString ''OnOneValueUpdated''),
                          (''payload'',
                           JObject [(''property'', JString name),
                                    (''value'', v)])]),
              Invoked c v] \<and>
         received c (world_of (andThen (subscribe name (Consumer c) w) (emit name (Some v)))) =
           received c w @ [v] \<and>
         relay name v w =
           logged w [PostMessage (panel p)
                       (JObject [(''type'', JString ''OnOneValueUpdated''),
                                 (''payload'',
                                  JObject [(''property'', JString name),
                                           (''value'', v)])])]"
proof -
  define e1 where "e1 = e\<lparr>subscribers := subscribers e @ [Consumer c]\<rparr>"
  define w1 where "w1 = set_slot name e1 w"
  have sub: "subscribe name (Consumer c) w = Inr w1"
    unfolding w1_def e1_def using assms(1) by (rule subscribe_Some)
  have found: "slot name w1 = Some e1"
    unfolding w1_def using assms(1) by (rule slot_set_slot_same)
  have same: "currentPanel w1 = Some p" "trace w1 = trace w"
    using assms(3) by (simp_all add: w1_def)
  have subs: "subscribers e1 = [Relay name, Consumer c]"
    using assms(2) by (simp add: e1_def)
  have run: "emit name (Some v) w1 =
      Inr (logged (set_slot name (e1\<lparr>currentValue := v\<rparr>) w1)
             (concat (map (\<lambda>cb. observed (currentPanel w1) cb v) (subscribers e1))))"
    using found by (rule emit_Some)
  have rec: "received c (set_slot name (e1\<lparr>currentValue := v\<rparr>) w1) = received c w"
    by (simp add: received_def same)
  show ?thesis
    using assms(3)
    by (simp add: sub run same subs relay_Some received_logged rec envelope_def)
qed

theorem emit_posts_envelope_and_invokes_consumer_witness:
  "trace (world_of (andThen
      (subscribe ''latestPqTestResult'' (Consumer 0)
         ((init_world [])
            \<lparr>broker_values := [(''latestPqTestResult'',
                 \<lparr>currentValue = JUndefined, subscribers = [Relay ''latestPqTestResult'']\<rparr>)],
             currentPanel := Some \<lparr>ident = 0, panel = 0, extensionUri = [''ext'']\<rparr>\<rparr>))
      (emit ''latestPqTestResult'' (Some (JObject [(''ok'', JBool True)]))))) =
     [PostMessage 0
        (JObject [(''type'', JString ''OnOneValueUpdated''),
                  (''payload'',
                   JObject [(''property'', JString ''latestPqTestResult''),
                            (''value'', JObject [(''ok'', JBool True)])])]),
      Invoked 0 (JObject [(''ok'', JBool True)])]"
proof -
  let ?w = "(init_world [])
     \<lparr>broker_values := [(''latestPqTestResult'',
          \<lparr>currentValue = JUndefined, subscribers = [Relay ''latestPqTestResult'']\<rparr>)],
      currentPanel := Some \<lparr>ident = 0, panel = 0, extensionUri = [''ext'']\<rparr>\<rparr>"
  have s: "slot ''latestPqTestResult'' ?w =
      Some \<lparr>currentValue = JUndefined, subscribers = [Relay ''latestPqTestResult'']\<rparr>"
    by (simp add: slot_def)
  have r: "subscribers \<lparr>currentValue = JUndefined, subscribers = [Relay ''latestPqTestResult'']\<rparr> =
      [Relay ''latestPqTestResult'']"
    by simp
  have c: "currentPanel ?w = Some \<lparr>ident = 0, panel = 0, extensionUri = [''ext'']\<rparr>"
    by simp
  have t: "trace ?w = []"
    by simp
  have "trace (world_of (andThen (subscribe ''latestPqTestResult'' (Consumer 0) ?w)
          (emit ''latestPqTestResult'' (Some (JObject [(''ok'', JBool True)]))))) =
        trace ?w @
          [PostMessage (panel \<lparr>ident = 0, panel = 0, extensionUri = [''ext'']\<rparr>)
             (JObject [(''type'', JString ''OnOneValueUpdated''),
                       (''payload'',
                        JObject [(''property'', JString ''latestPqTestResult''),
                                 (''value'', JObject [(''ok'', JBool True)])])]),
           Invoked 0 (JObject [(''ok'', JBool True)])]"
    using emit_posts_envelope_and_invokes_consumer [OF s r c] by blast
  then show ?thesis
    by (simp only: t) simp
qed

text \<open>
  C4, as the claim states it, fails. From the state at module load: activate the
  broker, run the show-command, subscribe consumer 0 to \<open>latestPqTestResult\<close> and
  emit \<open>{ok: true}\<close>. The consumer is invoked once, with \<open>{ok: true}\<close>; it is never
  invoked with the envelope.
\<close>

theorem consumer_receives_value_not_envelope:
  "received 0 (world_of (andThen
      (subscribe ''latestPqTestResult'' (Consumer 0)
         (createOrShow [''ext''] (world_of (activate (init_world [])))))
      (emit ''latestPqTestResult'' (Some (JObject [(''ok'', JBool True)]))))) =
     [JObject [(''ok'', JBool True)]] \<and>
   JObject [(''ok'', JBool True)] \<noteq>
     JObject [(''type'', JString ''OnOneValueUpdated''),
              (''payload'',
               JObject [(''property'', JString ''latestPqTestResult''),
                        (''value'', JObject [(''ok'', JBool True)])])] \<and>
   Invoked 0
     (JObject [(''type'', JString ''OnOneValueUpdated''),
               (''payload'',
                JObject [(''property'', JString ''latestPqTestResult''),
                         (''value'', JObject [(''ok'', JBool True)])])])
     \<notin> set (trace (world_of (andThen
      (subscribe ''latestPqTestResult'' (Consumer 0)
         (createOrShow [''ext''] (world_of (activate (init_world [])))))
      (emit ''latestPqTestResult'' (Some (JObject [(''ok'', JBool True)]))))))"
proof -
  have a: "activate (init_world []) =
      Inr ((called Activate (init_world []))\<lparr>broker_values :=
        [(''latestPqTestResult'',
          \<lparr>currentValue = JUndefined, subscribers = [Relay ''latestPqTestResult'']\<rparr>)]\<rparr>)"
    by (simp add: activate_eq)
  show ?thesis
    by (simp add: a createOrShow_None subscribe_def emit_def slot_def set_slot_def Let_def
          relay_def postOneMessage_def logged_def called_def received_def envelope_def)
qed

section \<open>Updates while no panel exists\<close>

lemma emit_each_single:
  "broker_values w = [(name, e)] \<Longrightarrow> subscribers e = [Relay name] \<Longrightarrow>
   currentPanel w = None \<Longrightarrow>
   emit_each name vs w =
     Inr (w\<lparr>broker_values := [(name, e\<lparr>currentValue := last (currentValue e # vs)\<rparr>)]\<rparr>)"
proof (induction vs arbitrary: w e)
  case Nil
  then show ?case by simp
next
  case (Cons v vs)
  define w1 where "w1 = w\<lparr>broker_values := [(name, e\<lparr>currentValue := v\<rparr>)]\<rparr>"
  have step: "emit name (Some v) w = Inr w1"
    using Cons.prems
    by (simp add: emit_def slot_def set_slot_def relay_def w1_def)
  have "emit_each name vs w1 =
      Inr (w1\<lparr>broker_values :=
             [(name, (e\<lparr>currentValue := v\<rparr>)\<lparr>currentValue :=
                 last (currentValue (e\<lparr>currentValue := v\<rparr>) # vs)\<rparr>)]\<rparr>)"
    by (rule Cons.IH) (use Cons.prems in \<open>simp_all add: w1_def\<close>)
  then show ?case
    by (simp add: step w1_def)
qed

text \<open>
  C9. While there is no current panel, an update delivered to the relay is dropped: the
  relay returns the state as it was, so nothing is posted, nothing is raised and nothing
  is queued. Creating the panel afterwards posts nothing. With the one relay on the one
  slot, any sequence of updates ending in \<open>v\<close> leaves only \<open>v\<close> stored, and the
  surface of the panel created afterwards is handed exactly one message, on its
  \<open>onReady\<close>: the envelope of the stored value \<open>v\<close>.
\<close>

theorem relay_without_panel_drops:
  assumes "currentPanel w = None"
  shows "relay oneProperty v w = w \<and>
         posted (createOrShow uri w) = posted w \<and>
         (broker_values w = [(name, e)] \<and> subscribers e = [Relay name] \<longrightarrow>
            emit_each name (vs @ [v]) w =
              Inr (w\<lparr>broker_values := [(name, e\<lparr>currentValue := v\<rparr>)]\<rparr>) \<and>
            posted (world_of (onDidReceiveMessage_listener (JObject [(''type'', JString ''onReady'')])
                      (createOrShow uri (world_of (emit_each name (vs @ [v]) w))))) =
              posted w @
                [(hostNext w,
                  envelope ''OnOneValueUpdated''
                    (JObject [(''property'', JString name), (''value'', v)]))])"
proof -
  have dropped: "relay oneProperty v w = w"
    using assms by (rule relay_None)
  have silent: "posted (createOrShow uri w) = posted w"
    by (rule posted_createOrShow)
  have late: "emit_each name (vs @ [v]) w =
        Inr (w\<lparr>broker_values := [(name, e\<lparr>currentValue := v\<rparr>)]\<rparr>) \<and>
      posted (world_of (onDidReceiveMessage_listener (JObject [(''type'', JString ''onReady'')])
                (createOrShow uri (world_of (emit_each name (vs @ [v]) w))))) =
        posted w @
          [(hostNext w,
            envelope ''OnOneValueUpdated''
              (JObject [(''property'', JString name), (''value'', v)]))]"
    if one: "broker_values w = [(name, e)]" and sub: "subscribers e = [Relay name]"
  proof -
    define w1 where "w1 = w\<lparr>broker_values := [(name, e\<lparr>currentValue := v\<rparr>)]\<rparr>"
    define w2 where "w2 = createOrShow uri w1"
    have updates: "emit_each name (vs @ [v]) w = Inr w1"
      using emit_each_single [OF one sub assms, of "vs @ [v]"] by (simp add: w1_def)
    have none: "currentPanel w1 = None"
      using assms by (simp add: w1_def)
    have slots2: "broker_values w2 = [(name, e\<lparr>currentValue := v\<rparr>)]"
      and cp2: "currentPanel w2 =
        Some \<lparr>ident = length (instances w), panel = hostNext w, extensionUri = uri\<rparr>"
      unfolding w2_def createOrShow_None [OF none] by (simp_all add: w1_def)
    have p2: "posted w2 = posted w"
      unfolding w2_def posted_createOrShow by (simp add: posted_def w1_def)
    have "distinct (map fst (broker_values w2))"
      by (simp add: slots2)
    then have "emitAll w2 =
        Inr (logged (called EmitAll w2)
               (concat (map (\<lambda>(n, e). deliveries (currentPanel w2) e) (broker_values w2))))"
      by (rule emitAll_eq)
    then have ready: "onDidReceiveMessage_listener (JObject [(''type'', JString ''onReady'')]) w2 =
        Inr (logged (called EmitAll w2)
               [PostMessage (hostNext w)
                  (envelope ''OnOneValueUpdated''
                     (JObject [(''property'', JString name), (''value'', v)]))])"
      using sub by (simp add: onDidReceiveMessage_listener_def slots2 cp2 deliveries_def)
    have "posted (called EmitAll w2) = posted w2"
      by (simp add: posted_def)
    then show ?thesis
      using p2 by (simp add: updates ready posted_logged flip: w1_def w2_def)
  qed
  show ?thesis
    using dropped silent late by blast
qed

theorem relay_without_panel_drops_witness:
  "posted (world_of (emit_each ''latestPqTestResult'' [JNumber 1, JNumber 2]
       (world_of (activate (init_world []))))) = [] \<and>
   posted (createOrShow [''ext'']
       (world_of (emit_each ''latestPqTestResult'' [JNumber 1, JNumber 2]
          (world_of (activate (init_world [])))))) = [] \<and>
   posted (world_of (onDidReceiveMessage_listener (JObject [(''type'', JString ''onReady'')])
       (createOrShow [''ext'']
          (world_of (emit_each ''latestPqTestResult'' [JNumber 1, JNumber 2]
             (world_of (activate (init_world [])))))))) =
     [(0, envelope ''OnOneValueUpdated''
            (JObject [(''property'', JString ''latestPqTestResult''), (''value'', JNumber 2)]))]"
proof -
  define w where "w = (called Activate (init_world []))\<lparr>broker_values :=
      [(''latestPqTestResult'',
        \<lparr>currentValue = JUndefined, subscribers = [Relay ''latestPqTestResult'']\<rparr>)]\<rparr>"
  have a: "world_of (activate (init_world [])) = w"
    by (simp add: activate_eq w_def)
  have none: "currentPanel w = None"
    and slots: "broker_values w = [(''latestPqTestResult'',
        \<lparr>currentValue = JUndefined, subscribers = [Relay ''latestPqTestResult'']\<rparr>)]"
    and quiet: "posted w = []"
    and fresh: "hostNext w = 0"
    by (simp_all add: w_def posted_def)
  note fact = relay_without_panel_drops [OF none, of "''latestPqTestResult''" "JNumber 2" "[''ext'']"
      "''latestPqTestResult''"
      "\<lparr>currentValue = JUndefined, subscribers = [Relay ''latestPqTestResult'']\<rparr>"
      "[JNumber 1]"]
  have hyp: "broker_values w = [(''latestPqTestResult'',
        \<lparr>currentValue = JUndefined, subscribers = [Relay ''latestPqTestResult'']\<rparr>)] \<and>
      subscribers \<lparr>currentValue = JUndefined, subscribers = [Relay ''latestPqTestResult'']\<rparr> =
        [Relay ''latestPqTestResult'']"
    using slots by simp
  have upd: "emit_each ''latestPqTestResult'' ([JNumber 1] @ [JNumber 2]) w =
      Inr (w\<lparr>broker_values := [(''latestPqTestResult'',
        \<lparr>currentValue = JUndefined, subscribers = [Relay ''latestPqTestResult'']\<rparr>
          \<lparr>currentValue := JNumber 2\<rparr>)]\<rparr>)"
    using fact hyp by blast
  have rdy: "posted (world_of (onDidReceiveMessage_listener (JObject [(''type'', JString ''onReady'')])
        (createOrShow [''ext''] (world_of (emit_each ''latestPqTestResult'' ([JNumber 1] @ [JNumber 2]) w))))) =
      posted w @ [(hostNext w, envelope ''OnOneValueUpdated''
            (JObject [(''property'', JString ''latestPqTestResult''), (''value'', JNumber 2)]))]"
    using fact hyp by blast
  have app: "[JNumber 1] @ [JNumber 2] = [JNumber 1, JNumber 2]"
    by simp
  have one: "posted (world_of (emit_each ''latestPqTestResult'' [JNumber 1, JNumber 2] w)) = []"
    using upd quiet unfolding app by (simp add: posted_def)
  have two: "posted (createOrShow [''ext'']
       (world_of (emit_each ''latestPqTestResult'' [JNumber 1, JNumber 2] w))) = []"
    unfolding posted_createOrShow by (rule one)
  show ?thesis
    unfolding a using one two rdy [unfolded app quiet fresh] by simp
qed

section \<open>The panel: creation, disposal and the singleton invariant\<close>

lemma takeWhile_all: "dropWhile P xs = [] \<Longrightarrow> takeWhile P xs = xs"
  by (metis append_Nil2 takeWhile_dropWhile_id)

lemma dispose_loop_world:
  "world_of (dispose_loop i w) =
     logged
       (w\<lparr>disposables := (disposables w)
            (i := case dropWhile (\<lambda>d. d \<notin> set (hostFaults w)) (rev (disposables w i)) of
                    [] \<Rightarrow> []
                  | d # rest \<Rightarrow> rev rest)\<rparr>)
       (map Released (takeWhile (\<lambda>d. d \<notin> set (hostFaults w)) (rev (disposables w i))))"
  by (cases "dropWhile (\<lambda>d. d \<notin> set (hostFaults w)) (rev (disposables w i))";
      simp add: dispose_loop_eq [OF refl] takeWhile_all del: dropWhile_eq_Nil_conv)

lemma dispose_loop_thrown:
  "thrown (dispose_loop i w) =
     (case dropWhile (\<lambda>d. d \<notin> set (hostFaults w)) (rev (disposables w i)) of
        [] \<Rightarrow> None
      | d # rest \<Rightarrow> Some (DisposeFailed d))"
  by (cases "dropWhile (\<lambda>d. d \<notin> set (hostFaults w)) (rev (disposables w i))";
      simp add: dispose_loop_eq [OF refl] del: dropWhile_eq_Nil_conv)

lemma dispose_loop_keeps:
  "currentPanel (world_of (dispose_loop i w)) = currentPanel w"
  "instances (world_of (dispose_loop i w)) = instances w"
  "hostNext (world_of (dispose_loop i w)) = hostNext w"
  "hostFaults (world_of (dispose_loop i w)) = hostFaults w"
  "broker_values (world_of (dispose_loop i w)) = broker_values w"
  "brokerCalls (world_of (dispose_loop i w)) = brokerCalls w"
  by (simp_all add: dispose_loop_world)

lemma dispose_loop_trace:
  "trace (world_of (dispose_loop i w)) =
     trace w @ map Released (takeWhile (\<lambda>d. d \<notin> set (hostFaults w)) (rev (disposables w i)))"
  by (simp add: dispose_loop_world)

lemma dispose_loop_left:
  "disposables (world_of (dispose_loop i w)) i =
     (case dropWhile (\<lambda>d. d \<notin> set (hostFaults w)) (rev (disposables w i)) of
        [] \<Rightarrow> []
      | d # rest \<Rightarrow> rev rest)"
  by (simp add: dispose_loop_world)

lemma dispose_keeps:
  "currentPanel (world_of (dispose this w)) = None"
  "instances (world_of (dispose this w)) = instances w"
  "hostNext (world_of (dispose this w)) = hostNext w"
  "hostFaults (world_of (dispose this w)) = hostFaults w"
  "broker_values (world_of (dispose this w)) = broker_values w"
  by (simp_all add: dispose_def dispose_loop_keeps)

lemma dispose_trace:
  "trace (world_of (dispose this w)) =
     trace w @ PanelDispose (panel this) #
       map Released (takeWhile (\<lambda>d. d \<notin> set (hostFaults w)) (rev (disposables w (ident this))))"
  by (simp add: dispose_def dispose_loop_trace)

lemma dispose_thrown:
  "thrown (dispose this w) =
     (case dropWhile (\<lambda>d. d \<notin> set (hostFaults w)) (rev (disposables w (ident this))) of
        [] \<Rightarrow> None
      | d # rest \<Rightarrow> Some (DisposeFailed d))"
  by (simp add: dispose_def dispose_loop_thrown)

lemma dispose_left:
  "disposables (world_of (dispose this w)) (ident this) =
     (case dropWhile (\<lambda>d. d \<notin> set (hostFaults w)) (rev (disposables w (ident this))) of
        [] \<Rightarrow> []
      | d # rest \<Rightarrow> rev rest)"
  by (simp add: dispose_def dispose_loop_left)

lemma createOrShow_after_dispose:
  "createOrShow uri (world_of (dispose this w)) =
     (world_of (dispose this w))
       \<lparr>currentPanel :=
         Some \<lparr>ident = length (instances w), panel = hostNext w, extensionUri = uri\<rparr>,
       instances := instances w @
         [\<lparr>ident = length (instances w), panel = hostNext w, extensionUri = uri\<rparr>],
       disposables := (disposables (world_of (dispose this w)))
         (length (instances w) :=
            [Suc (hostNext w), Suc (Suc (hostNext w)), Suc (Suc (Suc (hostNext w)))]),
       hostNext := Suc (Suc (Suc (Suc (hostNext w)))),
       trace := trace (world_of (dispose this w)) @
         [ExecuteCommand ''workbench.action.editorLayoutTwoColumns'',
          CreateWebviewPanel (hostNext w) viewType ''PQTest result'' Beside (getWebviewOptions uri),
          SetTitle (hostNext w) ''PQTest result webview'',
          SetHtml (hostNext w) (BootstrapDocument (joinPath uri (viewPaths @ [''main.js'']))),
          Listen (hostNext w) OnDidDispose (Suc (hostNext w)),
          Listen (hostNext w) OnDidChangeViewState (Suc (Suc (hostNext w))),
          Listen (hostNext w) OnDidReceiveMessage (Suc (Suc (Suc (hostNext w))))]\<rparr>"
  using createOrShow_None [OF dispose_keeps(1), where uri = uri and this1 = this and w1 = w]
  by (simp add: dispose_keeps)

lemma one_panel_createOrShow:
  assumes "one_panel w"
  shows "one_panel (createOrShow uri w)"
proof (cases "currentPanel w")
  case None
  have fresh: "PanelDispose (hostNext w) \<notin> set (trace w)"
    using assms by (auto simp: one_panel_def)
  have "live w = []"
    using assms None by (simp add: one_panel_def)
  then have old: "filter (\<lambda>p. PanelDispose (panel p) \<notin> set (trace w)) (instances w) = []"
    by (simp add: live_def)
  show ?thesis
    using assms None fresh old
    by (auto simp: one_panel_def live_def createOrShow_None less_Suc_eq)
next
  case (Some p)
  then show ?thesis
    using assms by (auto simp: one_panel_def live_def createOrShow_Some)
qed

lemma one_panel_closed:
  assumes "one_panel w" and "currentPanel w = Some p"
  shows "one_panel (world_of (onDidDispose_listener p w))"
proof -
  have only: "filter (\<lambda>q. PanelDispose (panel q) \<notin> set (trace w)) (instances w) = [p]"
    using assms by (simp add: one_panel_def live_def)
  then have "p \<in> set (filter (\<lambda>q. PanelDispose (panel q) \<notin> set (trace w)) (instances w))"
    by simp
  then have "p \<in> set (instances w)"
    by simp
  then have bound: "panel p < hostNext w"
    using assms(1) by (simp add: one_panel_def)
  have "filter (\<lambda>q. panel q \<noteq> panel p \<and> PanelDispose (panel q) \<notin> set (trace w)) (instances w) =
      filter (\<lambda>q. panel q \<noteq> panel p)
        (filter (\<lambda>q. PanelDispose (panel q) \<notin> set (trace w)) (instances w))"
    by (simp add: conj_commute)
  also have "\<dots> = []"
    by (simp add: only)
  finally have gone: "filter (\<lambda>q. panel q \<noteq> panel p \<and> PanelDispose (panel q) \<notin> set (trace w))
      (instances w) = []" .
  have sets: "\<And>q. (PanelDispose (panel q) \<notin> set (trace (world_of (dispose p w)))) =
      (panel q \<noteq> panel p \<and> PanelDispose (panel q) \<notin> set (trace w))"
    by (auto simp: dispose_trace)
  have none_live: "live (world_of (dispose p w)) = []"
    by (simp add: live_def dispose_keeps sets gone)
  have disposed: "\<forall>h. PanelDispose h \<in> set (trace (world_of (dispose p w))) \<longrightarrow> h < hostNext w"
    using assms(1) bound by (auto simp: dispose_trace one_panel_def)
  have bounded: "\<forall>q \<in> set (instances w). panel q < hostNext w"
    using assms(1) by (simp add: one_panel_def)
  show ?thesis
    using disposed bounded
    by (simp add: one_panel_def onDidDispose_listener_def dispose_keeps none_live)
qed

lemma one_panel_step: "one_panel w \<Longrightarrow> one_panel (step uri w i)"
  by (cases i) (auto simp: one_panel_createOrShow one_panel_closed split: option.split)

lemma one_panel_run: "one_panel w \<Longrightarrow> one_panel (run uri inputs w)"
  unfolding run_def by (induction inputs arbitrary: w) (simp_all add: one_panel_step)

lemma one_panel_live: "one_panel w \<Longrightarrow> length (live w) \<le> 1"
  by (simp add: one_panel_def split: option.splits)

lemma one_panel_init: "one_panel (init_world faults)"
  by (simp add: one_panel_def live_def)

lemma shows_Some:
  "currentPanel w = Some p \<Longrightarrow>
     (createOrShow uri ^^ n) w = logged w (replicate n (Reveal (panel p)))"
proof (induction n)
  case 0
  then show ?case by simp
next
  case (Suc n)
  then show ?case
    by (simp add: createOrShow_Some replicate_append_same)
qed

section \<open>The show-command\<close>

lemma shows_None:
  "currentPanel w = None \<Longrightarrow>
     (createOrShow uri ^^ Suc n) w =
       logged (createOrShow uri w) (replicate n (Reveal (hostNext w)))"
proof -
  assume none: "currentPanel w = None"
  let ?new = "\<lparr>ident = length (instances w), panel = hostNext w, extensionUri = uri\<rparr>"
  have "currentPanel (createOrShow uri w) = Some ?new"
    by (simp add: createOrShow_None [OF none])
  then have "(createOrShow uri ^^ n) (createOrShow uri w) =
      logged (createOrShow uri w) (replicate n (Reveal (panel ?new)))"
    by (rule shows_Some)
  then show ?thesis
    by (simp add: funpow_swap1)
qed

lemma created_world [simp]:
  "currentPanel (createOrShow uri (init_world faults)) =
     Some \<lparr>ident = 0, panel = 0, extensionUri = uri\<rparr>"
  "instances (createOrShow uri (init_world faults)) =
     [\<lparr>ident = 0, panel = 0, extensionUri = uri\<rparr>]"
  "disposables (createOrShow uri (init_world faults)) 0 = [1, 2, 3]"
  "hostNext (createOrShow uri (init_world faults)) = 4"
  "hostFaults (createOrShow uri (init_world faults)) = faults"
  "trace (createOrShow uri (init_world faults)) =
     [ExecuteCommand ''workbench.action.editorLayoutTwoColumns'',
      CreateWebviewPanel 0 viewType ''PQTest result'' Beside (getWebviewOptions uri),
      SetTitle 0 ''PQTest result webview'',
      SetHtml 0 (BootstrapDocument (joinPath uri (viewPaths @ [''main.js'']))),
      Listen 0 OnDidDispose 1, Listen 0 OnDidChangeViewState 2, Listen 0 OnDidReceiveMessage 3]"
  by (simp_all add: createOrShow_None)

text \<open>
  C1. From a state where the live instances are exactly the current panel, every
  sequence of show-commands and surface closures leaves at most one live instance. A
  show-command with a current panel constructs nothing and reveals that panel's surface,
  however often it is repeated. With no current panel, two consecutive show-commands
  construct exactly one instance, the only live one, and the trace shows one surface
  created by the first invocation and one reveal by the second; every further
  invocation adds one more reveal and nothing else.
\<close>

theorem createOrShow_singleton:
  assumes "one_panel w"
  shows "length (live (run uri inputs w)) \<le> 1 \<and>
         (currentPanel w = Some p \<longrightarrow>
            (createOrShow uri ^^ n) w = logged w (replicate n (Reveal (panel p))) \<and>
            instances ((createOrShow uri ^^ n) w) = instances w) \<and>
         (currentPanel w = None \<longrightarrow>
            instances (createOrShow uri (createOrShow uri w)) =
              instances w @
                [\<lparr>ident = length (instances w), panel = hostNext w, extensionUri = uri\<rparr>] \<and>
            live (createOrShow uri (createOrShow uri w)) =
              [\<lparr>ident = length (instances w), panel = hostNext w, extensionUri = uri\<rparr>] \<and>
            trace (createOrShow uri (createOrShow uri w)) =
              trace w @
                [ExecuteCommand ''workbench.action.editorLayoutTwoColumns'',
                 CreateWebviewPanel (hostNext w) viewType ''PQTest result'' Beside
                   (getWebviewOptions uri),
                 SetTitle (hostNext w) ''PQTest result webview'',
                 SetHtml (hostNext w) (BootstrapDocument (joinPath uri (viewPaths @ [''main.js'']))),
                 Listen (hostNext w) OnDidDispose (Suc (hostNext w)),
                 Listen (hostNext w) OnDidChangeViewState (Suc (Suc (hostNext w))),
                 Listen (hostNext w) OnDidReceiveMessage (Suc (Suc (Suc (hostNext w)))),
                 Reveal (hostNext w)] \<and>
            (createOrShow uri ^^ Suc n) w =
              logged (createOrShow uri w) (replicate n (Reveal (hostNext w))))"
proof -
  have bounded: "length (live (run uri inputs w)) \<le> 1"
    using assms by (intro one_panel_live one_panel_run)
  have existing: "(createOrShow uri ^^ n) w = logged w (replicate n (Reveal (panel p))) \<and>
      instances ((createOrShow uri ^^ n) w) = instances w"
    if "currentPanel w = Some p"
    using shows_Some [OF that, where uri = uri and n = n] by simp
  have absent: "instances (createOrShow uri (createOrShow uri w)) =
        instances w @
          [\<lparr>ident = length (instances w), panel = hostNext w, extensionUri = uri\<rparr>] \<and>
      live (createOrShow uri (createOrShow uri w)) =
        [\<lparr>ident = length (instances w), panel = hostNext w, extensionUri = uri\<rparr>] \<and>
      trace (createOrShow uri (createOrShow uri w)) =
        trace w @
          [ExecuteCommand ''workbench.action.editorLayoutTwoColumns'',
           CreateWebviewPanel (hostNext w) viewType ''PQTest result'' Beside
             (getWebviewOptions uri),
           SetTitle (hostNext w) ''PQTest result webview'',
           SetHtml (hostNext w) (BootstrapDocument (joinPath uri (viewPaths @ [''main.js'']))),
           Listen (hostNext w) OnDidDispose (Suc (hostNext w)),
           Listen (hostNext w) OnDidChangeViewState (Suc (Suc (hostNext w))),
           Listen (hostNext w) OnDidReceiveMessage (Suc (Suc (Suc (hostNext w)))),
           Reveal (hostNext w)] \<and>
      (createOrShow uri ^^ Suc n) w =
        logged (createOrShow uri w) (replicate n (Reveal (hostNext w)))"
    if none: "currentPanel w = None"
  proof -
    let ?new = "\<lparr>ident = length (instances w), panel = hostNext w, extensionUri = uri\<rparr>"
    have cur: "currentPanel (createOrShow uri w) = Some ?new"
      by (simp add: createOrShow_None [OF none])
    have second: "createOrShow uri (createOrShow uri w) =
        logged (createOrShow uri w) [Reveal (panel ?new)]"
      using cur by (rule createOrShow_Some)
    have "one_panel (createOrShow uri (createOrShow uri w))"
      using assms by (intro one_panel_createOrShow)
    then have alive: "live (createOrShow uri (createOrShow uri w)) = [?new]"
      by (simp add: one_panel_def second cur)
    show ?thesis
      using shows_None [OF none, where uri = uri and n = n] alive
      by (simp add: second) (simp add: createOrShow_None [OF none])
  qed
  show ?thesis
    using bounded existing absent by blast
qed

theorem createOrShow_singleton_witness:
  "one_panel (init_world []) \<and>
   length (live (run [''ext''] [ShowCommand, ShowCommand, SurfaceClosed, ShowCommand]
                   (init_world []))) \<le> 1 \<and>
   instances (createOrShow [''ext''] (createOrShow [''ext''] (init_world []))) =
     [\<lparr>ident = 0, panel = 0, extensionUri = [''ext'']\<rparr>] \<and>
   trace (createOrShow [''ext''] (createOrShow [''ext''] (init_world []))) =
     [ExecuteCommand ''workbench.action.editorLayoutTwoColumns'',
      CreateWebviewPanel 0 viewType ''PQTest result'' Beside (getWebviewOptions [''ext'']),
      SetTitle 0 ''PQTest result webview'',
      SetHtml 0 (BootstrapDocument (joinPath [''ext''] (viewPaths @ [''main.js'']))),
      Listen 0 OnDidDispose 1, Listen 0 OnDidChangeViewState 2, Listen 0 OnDidReceiveMessage 3,
      Reveal 0]"
proof -
  have inv: "one_panel (init_world [])"
    by (rule one_panel_init)
  have none: "currentPanel (init_world []) = None"
    by simp
  note fact = createOrShow_singleton [OF inv, where uri = "[''ext'']" and n = 0
      and inputs = "[ShowCommand, ShowCommand, SurfaceClosed, ShowCommand]"]
  have a: "length (live (run [''ext''] [ShowCommand, ShowCommand, SurfaceClosed, ShowCommand]
                   (init_world []))) \<le> 1"
    using fact by blast
  have b: "instances (createOrShow [''ext''] (createOrShow [''ext''] (init_world []))) =
      instances (init_world []) @
        [\<lparr>ident = length (instances (init_world [])), panel = hostNext (init_world []),
           extensionUri = [''ext'']\<rparr>]"
    using fact none by blast
  have c: "trace (createOrShow [''ext''] (createOrShow [''ext''] (init_world []))) =
      trace (init_world []) @
        [ExecuteCommand ''workbench.action.editorLayoutTwoColumns'',
         CreateWebviewPanel (hostNext (init_world [])) viewType ''PQTest result'' Beside
           (getWebviewOptions [''ext'']),
         SetTitle (hostNext (init_world [])) ''PQTest result webview'',
         SetHtml (hostNext (init_world []))
           (BootstrapDocument (joinPath [''ext''] (viewPaths @ [''main.js'']))),
         Listen (hostNext (init_world [])) OnDidDispose (Suc (hostNext (init_world []))),
         Listen (hostNext (init_world [])) OnDidChangeViewState
           (Suc (Suc (hostNext (init_world [])))),
         Listen (hostNext (init_world [])) OnDidReceiveMessage
           (Suc (Suc (Suc (hostNext (init_world []))))),
         Reveal (hostNext (init_world []))]"
    using fact none by blast
  show ?thesis
    using inv a b c by simp
qed

section \<open>Disposal\<close>

lemma takeWhile_none_faulty:
  "set ds \<inter> set faults = {} \<Longrightarrow> takeWhile (\<lambda>d. d \<notin> set faults) (rev ds) = rev ds"
  by (rule takeWhile_eq_all_conv [THEN iffD2]) auto

lemma dropWhile_none_faulty:
  "set ds \<inter> set faults = {} \<Longrightarrow> dropWhile (\<lambda>d. d \<notin> set faults) (rev ds) = []"
  by (rule dropWhile_eq_Nil_conv [THEN iffD2]) auto

lemma dispose_ok:
  assumes "set (disposables w (ident this)) \<inter> set (hostFaults w) = {}"
  shows "dispose this w =
     Inr (logged (w\<lparr>currentPanel := None,
                     disposables := (disposables w)(ident this := [])\<rparr>)
            (PanelDispose (panel this) # map Released (rev (disposables w (ident this)))))"
proof -
  let ?w0 = "logged (w\<lparr>currentPanel := None\<rparr>) [PanelDispose (panel this)]"
  have "dropWhile (\<lambda>d. d \<notin> set (hostFaults ?w0)) (rev (disposables ?w0 (ident this))) = []"
    using dropWhile_none_faulty [OF assms] by simp
  then have "dispose_loop (ident this) ?w0 =
      Inr (logged (?w0\<lparr>disposables := (disposables ?w0)(ident this := [])\<rparr>)
             (map Released (rev (disposables ?w0 (ident this)))))"
    using dispose_loop_eq [OF refl, where w = ?w0 and i = "ident this"]
    by (simp del: dropWhile_eq_Nil_conv)
  then show ?thesis
    by (simp add: dispose_def logged_def)
qed

text \<open>
  C3, as the code has it. When the surface reports closure, the singleton reference is
  cleared and the surface disposed, whatever follows. The owned disposables are then
  released one by one, the last registered first, up to the first whose release throws:
  that exception ends \<open>dispose\<close>, and the disposables registered before it stay
  unreleased in the list. If no release throws, every owned disposable is released
  exactly once and the list is left empty. In either case a subsequent show-command
  constructs a fresh instance.
\<close>

theorem dispose_releases_until_a_release_throws:
  "currentPanel (world_of (onDidDispose_listener this w)) = None \<and>
   thrown (onDidDispose_listener this w) =
     (case dropWhile (\<lambda>d. d \<notin> set (hostFaults w)) (rev (disposables w (ident this))) of
        [] \<Rightarrow> None
      | d # rest \<Rightarrow> Some (DisposeFailed d)) \<and>
   trace (world_of (onDidDispose_listener this w)) =
     trace w @ PanelDispose (panel this) #
       map Released (takeWhile (\<lambda>d. d \<notin> set (hostFaults w)) (rev (disposables w (ident this)))) \<and>
   disposables (world_of (onDidDispose_listener this w)) (ident this) =
     (case dropWhile (\<lambda>d. d \<notin> set (hostFaults w)) (rev (disposables w (ident this))) of
        [] \<Rightarrow> []
      | d # rest \<Rightarrow> rev rest) \<and>
   (set (disposables w (ident this)) \<inter> set (hostFaults w) = {} \<longrightarrow>
      onDidDispose_listener this w =
        Inr (logged (w\<lparr>currentPanel := None,
                        disposables := (disposables w)(ident this := [])\<rparr>)
               (PanelDispose (panel this) # map Released (rev (disposables w (ident this)))))) \<and>
   currentPanel (createOrShow uri (world_of (onDidDispose_listener this w))) =
     Some \<lparr>ident = length (instances w), panel = hostNext w, extensionUri = uri\<rparr> \<and>
   instances (createOrShow uri (world_of (onDidDispose_listener this w))) =
     instances w @ [\<lparr>ident = length (instances w), panel = hostNext w, extensionUri = uri\<rparr>]"
  unfolding onDidDispose_listener_def
  by (simp add: dispose_keeps dispose_thrown dispose_trace dispose_left dispose_ok
        createOrShow_after_dispose)

theorem dispose_releases_until_a_release_throws_witness:
  "set (disposables (createOrShow [''ext''] (init_world [])) 0) \<inter>
     set (hostFaults (createOrShow [''ext''] (init_world []))) = {} \<and>
   thrown (onDidDispose_listener \<lparr>ident = 0, panel = 0, extensionUri = [''ext'']\<rparr>
             (createOrShow [''ext''] (init_world []))) = None \<and>
   trace (world_of (onDidDispose_listener \<lparr>ident = 0, panel = 0, extensionUri = [''ext'']\<rparr>
             (createOrShow [''ext''] (init_world [])))) =
     trace (createOrShow [''ext''] (init_world [])) @
       [PanelDispose 0, Released 3, Released 2, Released 1] \<and>
   currentPanel (createOrShow [''ext'']
       (world_of (onDidDispose_listener \<lparr>ident = 0, panel = 0, extensionUri = [''ext'']\<rparr>
             (createOrShow [''ext''] (init_world []))))) =
     Some \<lparr>ident = 1, panel = 4, extensionUri = [''ext'']\<rparr>"
proof -
  let ?w = "createOrShow [''ext''] (init_world [])"
  let ?panel = "\<lparr>ident = 0, panel = 0, extensionUri = [''ext'']\<rparr>"
  have safe: "set (disposables ?w (ident ?panel)) \<inter> set (hostFaults ?w) = {}"
    by simp
  note fact = dispose_releases_until_a_release_throws
      [where this = ?panel and w = ?w and uri = "[''ext'']"]
  have run: "onDidDispose_listener ?panel ?w =
      Inr (logged (?w\<lparr>currentPanel := None,
                      disposables := (disposables ?w)(ident ?panel := [])\<rparr>)
             (PanelDispose (panel ?panel) # map Released (rev (disposables ?w (ident ?panel)))))"
    using fact safe by blast
  have again: "currentPanel (createOrShow [''ext''] (world_of (onDidDispose_listener ?panel ?w))) =
      Some \<lparr>ident = length (instances ?w), panel = hostNext ?w, extensionUri = [''ext'']\<rparr>"
    using fact by blast
  have r: "thrown (onDidDispose_listener ?panel ?w) = None"
    "trace (world_of (onDidDispose_listener ?panel ?w)) =
       trace ?w @ [PanelDispose 0, Released 3, Released 2, Released 1]"
    unfolding run by simp_all
  show ?thesis
    using r again by simp
qed

text \<open>
  C3, as the claim states it, fails. The state is the one the show-command leaves
  after module load, with a host whose registration 2 throws on release. On closure
  registration 3 is released, the release of 2 throws out of \<open>dispose\<close>, and
  registration 1 is never released: it is still in the list.
\<close>

theorem dispose_stops_at_throwing_release:
  "disposables (createOrShow [''ext''] (init_world [2])) 0 = [1, 2, 3] \<and>
   thrown (onDidDispose_listener \<lparr>ident = 0, panel = 0, extensionUri = [''ext'']\<rparr>
             (createOrShow [''ext''] (init_world [2]))) = Some (DisposeFailed 2) \<and>
   Released 1 \<notin> set (trace (world_of
       (onDidDispose_listener \<lparr>ident = 0, panel = 0, extensionUri = [''ext'']\<rparr>
             (createOrShow [''ext''] (init_world [2]))))) \<and>
   disposables (world_of
       (onDidDispose_listener \<lparr>ident = 0, panel = 0, extensionUri = [''ext'']\<rparr>
             (createOrShow [''ext''] (init_world [2])))) 0 = [1]"
  by (simp add: onDidDispose_listener_def dispose_thrown dispose_trace
        dispose_left [of "\<lparr>ident = 0, panel = 0, extensionUri = [''ext'']\<rparr>", simplified])

text \<open>
  C10. \<open>dispose\<close> clears the singleton reference before anything else: the disposal
  of the surface and the release loop run on a state whose \<open>currentPanel\<close> is already
  empty, and the loop never writes it. So the reference is empty after \<open>dispose\<close>
  whether it returns or throws, and a subsequent show-command constructs a new
  instance, which is not the disposed one.
\<close>

theorem dispose_clears_singleton_first:
  "dispose this w =
     dispose_loop (ident this)
       (logged (w\<lparr>currentPanel := None\<rparr>) [PanelDispose (panel this)]) \<and>
   currentPanel (world_of (dispose_loop i w')) = currentPanel w' \<and>
   currentPanel (world_of (dispose this w)) = None \<and>
   currentPanel (createOrShow uri (world_of (dispose this w))) =
     Some \<lparr>ident = length (instances w), panel = hostNext w, extensionUri = uri\<rparr> \<and>
   instances (createOrShow uri (world_of (dispose this w))) =
     instances w @ [\<lparr>ident = length (instances w), panel = hostNext w, extensionUri = uri\<rparr>] \<and>
   (ident this < length (instances w) \<longrightarrow>
      \<lparr>ident = length (instances w), panel = hostNext w, extensionUri = uri\<rparr> \<noteq> this)"
  by (auto simp: dispose_def dispose_loop_keeps createOrShow_after_dispose [unfolded dispose_def])

theorem dispose_clears_singleton_first_witness:
  "thrown (dispose \<lparr>ident = 0, panel = 0, extensionUri = [''ext'']\<rparr>
             (createOrShow [''ext''] (init_world [2]))) = Some (DisposeFailed 2) \<and>
   currentPanel (createOrShow [''ext''] (init_world [2])) =
     Some \<lparr>ident = 0, panel = 0, extensionUri = [''ext'']\<rparr> \<and>
   currentPanel (world_of (dispose \<lparr>ident = 0, panel = 0, extensionUri = [''ext'']\<rparr>
             (createOrShow [''ext''] (init_world [2])))) = None \<and>
   currentPanel (createOrShow [''ext'']
      (world_of (dispose \<lparr>ident = 0, panel = 0, extensionUri = [''ext'']\<rparr>
             (createOrShow [''ext''] (init_world [2]))))) =
     Some \<lparr>ident = 1, panel = 4, extensionUri = [''ext'']\<rparr> \<and>
   \<lparr>ident = 1, panel = 4, extensionUri = [''ext'']\<rparr> \<noteq>
     \<lparr>ident = 0, panel = 0, extensionUri = [''ext'']\<rparr>"
proof -
  let ?w = "createOrShow [''ext''] (init_world [2])"
  let ?panel = "\<lparr>ident = 0, panel = 0, extensionUri = [''ext'']\<rparr>"
  note fact = dispose_clears_singleton_first
      [where this = ?panel and w = ?w and uri = "[''ext'']" and i = 0 and w' = ?w]
  have before: "ident ?panel < length (instances ?w)"
    by simp
  have cleared: "currentPanel (world_of (dispose ?panel ?w)) = None"
    using fact by blast
  have again: "currentPanel (createOrShow [''ext''] (world_of (dispose ?panel ?w))) =
      Some \<lparr>ident = length (instances ?w), panel = hostNext ?w, extensionUri = [''ext'']\<rparr>"
    using fact by blast
  have other: "\<lparr>ident = length (instances ?w), panel = hostNext ?w, extensionUri = [''ext'']\<rparr> \<noteq> ?panel"
    using fact before by blast
  have failed: "thrown (dispose ?panel ?w) = Some (DisposeFailed 2)"
    by (simp add: dispose_thrown)
  show ?thesis
    using cleared again other failed by simp
qed

section \<open>Revival\<close>

text \<open>
  \<open>revive\<close> is not guarded: it wraps the surface the host supplies in a new instance
  and makes it the current panel, whether or not there was one. The singleton invariant
  of the show-command therefore rests on the host reviving only when no panel exists.
\<close>

lemma revive_replaces_current:
  "currentPanel (revive p uri w) =
     Some \<lparr>ident = length (instances w), panel = p, extensionUri = uri\<rparr> \<and>
   instances (revive p uri w) =
     instances w @ [\<lparr>ident = length (instances w), panel = p, extensionUri = uri\<rparr>]"
  by (simp add: revive_def new_PqTestResultViewPanel_def listen_def update_def Let_def)

end
